theory Spec2Isabelle
  imports Complex_Main
begin

section \<open>Data model of the payment plan\<close>

text \<open>
  The payment plan component (\<^verbatim>\<open>src/unnamed/part_000\<close>) holds the amortisation loop
  \<^verbatim>\<open>calculatePaymentPlan\<close>. Its data are the \<^verbatim>\<open>Debt\<close> interface of
  \<^verbatim>\<open>src/debt-management-coach.tsx\<close>, the clones with two more fields that the loop
  mutates, and the \<^verbatim>\<open>MonthlyPayment\<close> interface of the schedule.

  The function is modelled twice. In the first model a JavaScript \<^verbatim>\<open>number\<close> is an
  exact \<^typ>\<open>real\<close>: sums, products, quotients, \<^verbatim>\<open>Math.min\<close> and
  \<^verbatim>\<open>Math.max\<close> are the exact ones. It serves the properties that do not depend on the
  rounding of the machine: the month counter and the cap, the order of the balances of a
  debt, the choice of the target, the objects that a call writes to, what the function
  does with input that it does not check, and the plan of scenario A, whose numbers the
  machine returns rounded to the nearest double. In the second model, the section on
  double precision, every arithmetic operation is rounded as IEEE 754 binary64 rounds
  it; it serves the properties that compare sums of money, which hold or fail by the
  rounding. \<^verbatim>\<open>NaN\<close> and the infinities are in neither model. The month counter only
  takes the values 1, 2, 3, ... and is a \<^typ>\<open>nat\<close>.
\<close>

record Debt =
  id_debt :: string
  name :: string
  balance :: real
  interestRate :: real
  minimumPayment :: real

text \<open>
  A working debt is the object \<^verbatim>\<open>{...debt, remainingBalance: debt.balance, isPaidOff: false}\<close>.
  Its two extra fields carry the suffix \<open>_w\<close>, since the payment records below have
  fields of the same names.
\<close>

record WorkingDebt = Debt +
  remainingBalance_w :: real
  isPaidOff_w :: bool

text \<open>One element of \<^verbatim>\<open>MonthlyPayment["payments"]\<close>.\<close>

record Payment =
  debtId :: string
  amount :: real
  remainingBalance :: real
  isPaidOff :: bool

text \<open>The interface \<^verbatim>\<open>MonthlyPayment\<close>: the snapshot of one month.\<close>

record MonthlyPayment =
  month :: nat
  payments :: "Payment list"
  totalRemaining :: real
  totalPaid :: real
  totalInterestPaid :: real

datatype Strategy = avalanche | snowball | highestPaymentFirst | lowestPaymentFirst

text \<open>
  The variables that the callback of \<^verbatim>\<open>workingDebts.forEach\<close> reads and writes:
  \<^verbatim>\<open>remainingBudget\<close>, \<^verbatim>\<open>monthlyPayments\<close> and the two running totals.
\<close>

record Pass =
  remainingBudget :: real
  monthlyPayments :: "Payment list"
  totalPaid_v :: real
  totalInterestPaid_v :: real

text \<open>The variables of the \<^verbatim>\<open>while\<close> loop.\<close>

record Loop =
  workingDebts :: "WorkingDebt list"
  schedule :: "MonthlyPayment list"
  month_v :: nat
  totalPaid_l :: real
  totalInterestPaid_l :: real

text \<open>
  What \<^verbatim>\<open>calculatePaymentPlan\<close> hands over at its end, through the four state setters
  \<^verbatim>\<open>setPaymentSchedule\<close>, \<^verbatim>\<open>setTotalMonths\<close>, \<^verbatim>\<open>setTotalInterestPaid\<close> and
  \<^verbatim>\<open>setTotalPaid\<close>.
\<close>

record Plan =
  paymentSchedule :: "MonthlyPayment list"
  totalMonths :: nat
  totalInterestPaid_s :: real
  totalPaid_s :: real

section \<open>The minimum payments of one month\<close>

text \<open>
  The body of the \<^verbatim>\<open>forEach\<close> callback (lines 59 to 95) for one working debt: it
  returns the debt as mutated and the variables as updated.
  The arithmetic is exact here; \<open>payMinimum64\<close> below is the same callback with every
  operation rounded.
\<close>

definition payMinimum :: "WorkingDebt \<Rightarrow> Pass \<Rightarrow> WorkingDebt \<times> Pass" where
  "payMinimum debt st =
    (if isPaidOff_w debt then
       (debt, st\<lparr>monthlyPayments := monthlyPayments st @
          [\<lparr>debtId = id_debt debt, amount = 0, remainingBalance = 0, isPaidOff = True\<rparr>]\<rparr>)
     else
       let monthlyInterestRate = interestRate debt / 100 / 12;
           interestThisMonth = remainingBalance_w debt * monthlyInterestRate;
           paymentAmount = min (minimumPayment debt) (remainingBalance_w debt + interestThisMonth);
           principalPayment = max 0 (paymentAmount - interestThisMonth);
           interestPayment = paymentAmount - principalPayment;
           newBalance = max 0 (remainingBalance_w debt - principalPayment);
           debt' = debt\<lparr>remainingBalance_w := newBalance, isPaidOff_w := (newBalance = 0)\<rparr>
       in (debt',
           st\<lparr>remainingBudget := remainingBudget st - paymentAmount,
              totalPaid_v := totalPaid_v st + paymentAmount,
              totalInterestPaid_v := totalInterestPaid_v st + interestPayment,
              monthlyPayments := monthlyPayments st @
                [\<lparr>debtId = id_debt debt', amount = paymentAmount,
                  remainingBalance = remainingBalance_w debt',
                  isPaidOff = isPaidOff_w debt'\<rparr>]\<rparr>))"

text \<open>\<^verbatim>\<open>workingDebts.forEach\<close>: the callback on every debt, in the order of the array.\<close>

fun minimumPayments :: "WorkingDebt list \<Rightarrow> Pass \<Rightarrow> WorkingDebt list \<times> Pass" where
  "minimumPayments [] st = ([], st)"
| "minimumPayments (debt # rest) st =
    (let (debt', st') = payMinimum debt st;
         (rest', st'') = minimumPayments rest st'
     in (debt' # rest', st''))"

section \<open>The extra payment\<close>

text \<open>
  \<^verbatim>\<open>Array.prototype.sort\<close> with a comparator is a stable sort: \<^verbatim>\<open>a\<close> stays before
  \<^verbatim>\<open>b\<close> unless the comparator is positive on them. It is modelled by a stable
  insertion sort over the comparator.
\<close>

fun insort_cmp :: "('a \<Rightarrow> 'a \<Rightarrow> real) \<Rightarrow> 'a \<Rightarrow> 'a list \<Rightarrow> 'a list" where
  "insort_cmp cmp x [] = [x]"
| "insort_cmp cmp x (y # ys) =
    (if cmp x y \<le> 0 then x # y # ys else y # insort_cmp cmp x ys)"

definition sort_cmp :: "('a \<Rightarrow> 'a \<Rightarrow> real) \<Rightarrow> 'a list \<Rightarrow> 'a list" where
  "sort_cmp cmp xs = foldr (insort_cmp cmp) xs []"

text \<open>
  The objects of \<^verbatim>\<open>activeDebts\<close> are the objects of \<^verbatim>\<open>workingDebts\<close>, not copies:
  the filter keeps references. A reference is modelled by the position of the object in
  \<^verbatim>\<open>workingDebts\<close>, so \<^verbatim>\<open>activeDebts\<close> is a list of positions.
\<close>

definition activeDebts :: "WorkingDebt list \<Rightarrow> nat list" where
  "activeDebts wds = filter (\<lambda>i. \<not> isPaidOff_w (wds ! i)) [0..<length wds]"

text \<open>The comparators of the \<^verbatim>\<open>switch\<close> (lines 106 to 119).\<close>

fun comparator :: "Strategy \<Rightarrow> WorkingDebt \<Rightarrow> WorkingDebt \<Rightarrow> real" where
  "comparator avalanche a b = interestRate b - interestRate a"
| "comparator snowball a b = remainingBalance_w a - remainingBalance_w b"
| "comparator highestPaymentFirst a b = minimumPayment b - minimumPayment a"
| "comparator lowestPaymentFirst a b = minimumPayment a - minimumPayment b"

text \<open>
  \<^verbatim>\<open>targetDebt = activeDebts.sort(...)[0]\<close>: the first position of the sorted list;
  \<open>None\<close> stands for \<^verbatim>\<open>undefined\<close>, read from an empty array.
\<close>

definition targetDebt :: "Strategy \<Rightarrow> WorkingDebt list \<Rightarrow> nat list \<Rightarrow> nat option" where
  "targetDebt strategy wds active =
    (case sort_cmp (\<lambda>i j. comparator strategy (wds ! i) (wds ! j)) active of
       [] \<Rightarrow> None
     | i # _ \<Rightarrow> Some i)"

text \<open>
  \<^verbatim>\<open>monthlyPayments.find((p) => p.debtId === targetDebt.id)\<close> followed by the three
  assignments to the record found: the first record with that id is changed, and no
  record when there is none.
\<close>

fun updateRecord :: "string \<Rightarrow> (Payment \<Rightarrow> Payment) \<Rightarrow> Payment list \<Rightarrow> Payment list" where
  "updateRecord i f [] = []"
| "updateRecord i f (p # ps) =
    (if debtId p = i then f p # ps else p # updateRecord i f ps)"

text \<open>
  Lines 98 to 138: the extra payment to the target of the strategy. The arithmetic is
  exact here; \<open>applyExtra64\<close> below is the same with every operation rounded.
\<close>

definition applyExtra :: "Strategy \<Rightarrow> WorkingDebt list \<Rightarrow> Pass \<Rightarrow> WorkingDebt list \<times> Pass" where
  "applyExtra strategy wds st =
    (if remainingBudget st > 0 then
       let active = activeDebts wds in
       if length active > 0 then
         (case targetDebt strategy wds active of
            None \<Rightarrow> (wds, st)
          | Some t \<Rightarrow>
              let target = wds ! t;
                  extraPayment = min (remainingBudget st) (remainingBalance_w target);
                  newBalance = remainingBalance_w target - extraPayment;
                  target' = target\<lparr>remainingBalance_w := newBalance,
                                   isPaidOff_w := (newBalance = 0)\<rparr>
              in (wds[t := target'],
                  st\<lparr>monthlyPayments :=
                        updateRecord (id_debt target')
                          (\<lambda>p. p\<lparr>amount := amount p + extraPayment,
                                  remainingBalance := remainingBalance_w target',
                                  isPaidOff := isPaidOff_w target'\<rparr>)
                          (monthlyPayments st),
                     totalPaid_v := totalPaid_v st + extraPayment\<rparr>))
       else (wds, st)
     else (wds, st))"

section \<open>The loop\<close>

text \<open>One iteration of the \<^verbatim>\<open>while\<close> loop (lines 55 to 152): one month.\<close>

definition monthStep :: "real \<Rightarrow> Strategy \<Rightarrow> Loop \<Rightarrow> Loop" where
  "monthStep monthlyBudget strategy s =
    (let (wds1, st1) = minimumPayments (workingDebts s)
           \<lparr>remainingBudget = monthlyBudget, monthlyPayments = [],
            totalPaid_v = totalPaid_l s, totalInterestPaid_v = totalInterestPaid_l s\<rparr>;
         (wds2, st2) = applyExtra strategy wds1 st1;
         total = foldl (\<lambda>sum debt. sum + remainingBalance_w debt) 0 wds2
     in \<lparr>workingDebts = wds2,
         schedule = schedule s @
           [\<lparr>month = month_v s, payments = monthlyPayments st2, totalRemaining = total,
             totalPaid = totalPaid_v st2, totalInterestPaid = totalInterestPaid_v st2\<rparr>],
         month_v = month_v s + 1,
         totalPaid_l = totalPaid_v st2,
         totalInterestPaid_l = totalInterestPaid_v st2\<rparr>)"

text \<open>The loop condition of line 53.\<close>

definition continues :: "Loop \<Rightarrow> bool" where
  "continues s \<longleftrightarrow> list_ex (\<lambda>debt. \<not> isPaidOff_w debt) (workingDebts s) \<and> month_v s \<le> 600"

function while_loop :: "real \<Rightarrow> Strategy \<Rightarrow> Loop \<Rightarrow> Loop" where
  "while_loop monthlyBudget strategy s =
    (if continues s then while_loop monthlyBudget strategy (monthStep monthlyBudget strategy s)
     else s)"
  by pat_completeness auto
termination
  by (relation "measure (\<lambda>(b, g, s). 601 - month_v s)")
     (auto simp: continues_def monthStep_def Let_def split: prod.splits)

declare while_loop.simps [simp del]

text \<open>
  Lines 41 to 50: the clones and the initial values of the variables; then the loop. The
  result is the final value of the loop's variables.
\<close>

definition clone :: "Debt \<Rightarrow> WorkingDebt" where
  "clone debt = \<lparr>id_debt = id_debt debt, name = name debt, balance = balance debt,
     interestRate = interestRate debt, minimumPayment = minimumPayment debt,
     remainingBalance_w = balance debt, isPaidOff_w = False\<rparr>"

definition initial :: "Debt list \<Rightarrow> Loop" where
  "initial debts = \<lparr>workingDebts = map clone debts, schedule = [], month_v = 1,
     totalPaid_l = 0, totalInterestPaid_l = 0\<rparr>"

definition simulate :: "Debt list \<Rightarrow> real \<Rightarrow> Strategy \<Rightarrow> Loop" where
  "simulate debts monthlyBudget strategy =
    while_loop monthlyBudget strategy (initial debts)"

text \<open>Lines 155 to 158: the four values handed to the component's state.\<close>

definition calculatePaymentPlan :: "Debt list \<Rightarrow> real \<Rightarrow> Strategy \<Rightarrow> Plan" where
  "calculatePaymentPlan debts monthlyBudget strategy =
    (let s = simulate debts monthlyBudget strategy
     in \<lparr>paymentSchedule = schedule s, totalMonths = length (schedule s),
         totalInterestPaid_s = totalInterestPaid_l s, totalPaid_s = totalPaid_l s\<rparr>)"

section \<open>The same function on a heap of objects\<close>

text \<open>
  Whether \<^verbatim>\<open>calculatePaymentPlan\<close> writes to the caller's \<^verbatim>\<open>Debt\<close> objects cannot
  be asked of a function on values. Here the debts are objects in a heap, a list of
  objects addressed by position, and the \<^verbatim>\<open>debts\<close> array is a list of addresses. The
  function allocates its clones behind the objects that exist, and every assignment to a
  field of a working debt is a write to the heap at the address of that object. The
  payment records and the arrays are created inside the call and reach nobody else
  before it ends, so they stay values.
\<close>

datatype obj = DebtObj Debt | WorkingObj WorkingDebt

type_synonym heap = "obj list"

text \<open>
  \<^verbatim>\<open>{...debt, remainingBalance: debt.balance, isPaidOff: false}\<close> for the object
  \<^verbatim>\<open>debt\<close>: the spread copies the fields it finds, and the two last fields are set
  whether the object had them or not.
\<close>

fun cloneObj :: "obj \<Rightarrow> WorkingDebt" where
  "cloneObj (DebtObj debt) = clone debt"
| "cloneObj (WorkingObj w) = w\<lparr>remainingBalance_w := balance w, isPaidOff_w := False\<rparr>"

text \<open>The \<^verbatim>\<open>Debt\<close> fields of the object at an address, as the caller sees them.\<close>

fun debtOf :: "obj \<Rightarrow> Debt" where
  "debtOf (DebtObj debt) = debt"
| "debtOf (WorkingObj w) = \<lparr>id_debt = id_debt w, name = name w, balance = balance w,
     interestRate = interestRate w, minimumPayment = minimumPayment w\<rparr>"

text \<open>
  The working debt at an address. The function only reads the addresses of its clones,
  where a working debt is; the other case is there to make the reading total.
\<close>

fun asWorking :: "obj \<Rightarrow> WorkingDebt" where
  "asWorking (WorkingObj w) = w"
| "asWorking (DebtObj debt) = clone debt"

definition workingAt :: "heap \<Rightarrow> nat \<Rightarrow> WorkingDebt" where
  "workingAt h a = asWorking (h ! a)"

text \<open>
  \<^verbatim>\<open>debts.map(...)\<close>: one new object for each element of \<^verbatim>\<open>debts\<close>, allocated in
  order behind the objects of the heap; the result is the heap and the new array.
\<close>

definition cloneDebts :: "heap \<Rightarrow> nat list \<Rightarrow> heap \<times> nat list" where
  "cloneDebts h debts =
    (h @ map (\<lambda>a. WorkingObj (cloneObj (h ! a))) debts,
     [length h ..< length h + length debts])"

text \<open>The \<^verbatim>\<open>forEach\<close>: the callback writes the two fields of the object at \<open>a\<close>.\<close>

fun minimumPayments_h :: "heap \<Rightarrow> nat list \<Rightarrow> Pass \<Rightarrow> heap \<times> Pass" where
  "minimumPayments_h h [] st = (h, st)"
| "minimumPayments_h h (a # rest) st =
    (let (debt', st') = payMinimum (workingAt h a) st
     in minimumPayments_h (h[a := WorkingObj debt']) rest st')"

text \<open>
  The extra payment: \<^verbatim>\<open>activeDebts\<close> holds addresses, the sort compares the objects
  behind them, and the target is written where it lives.
\<close>

definition applyExtra_h :: "Strategy \<Rightarrow> heap \<Rightarrow> nat list \<Rightarrow> Pass \<Rightarrow> heap \<times> Pass" where
  "applyExtra_h strategy h refs st =
    (if remainingBudget st > 0 then
       let active = filter (\<lambda>a. \<not> isPaidOff_w (workingAt h a)) refs in
       if length active > 0 then
         (case sort_cmp (\<lambda>a b. comparator strategy (workingAt h a) (workingAt h b)) active of
            [] \<Rightarrow> (h, st)
          | t # _ \<Rightarrow>
              let target = workingAt h t;
                  extraPayment = min (remainingBudget st) (remainingBalance_w target);
                  newBalance = remainingBalance_w target - extraPayment;
                  target' = target\<lparr>remainingBalance_w := newBalance,
                                   isPaidOff_w := (newBalance = 0)\<rparr>
              in (h[t := WorkingObj target'],
                  st\<lparr>monthlyPayments :=
                        updateRecord (id_debt target')
                          (\<lambda>p. p\<lparr>amount := amount p + extraPayment,
                                  remainingBalance := remainingBalance_w target',
                                  isPaidOff := isPaidOff_w target'\<rparr>)
                          (monthlyPayments st),
                     totalPaid_v := totalPaid_v st + extraPayment\<rparr>))
       else (h, st)
     else (h, st))"

text \<open>The variables of the loop, with the heap and the array of addresses.\<close>

record HeapLoop =
  heap_h :: heap
  workingRefs :: "nat list"
  schedule_h :: "MonthlyPayment list"
  month_h :: nat
  totalPaid_h :: real
  totalInterestPaid_h :: real

definition monthStep_h :: "real \<Rightarrow> Strategy \<Rightarrow> HeapLoop \<Rightarrow> HeapLoop" where
  "monthStep_h monthlyBudget strategy s =
    (let (h1, st1) = minimumPayments_h (heap_h s) (workingRefs s)
           \<lparr>remainingBudget = monthlyBudget, monthlyPayments = [],
            totalPaid_v = totalPaid_h s, totalInterestPaid_v = totalInterestPaid_h s\<rparr>;
         (h2, st2) = applyExtra_h strategy h1 (workingRefs s) st1;
         total = foldl (\<lambda>sum a. sum + remainingBalance_w (workingAt h2 a)) 0 (workingRefs s)
     in \<lparr>heap_h = h2, workingRefs = workingRefs s,
         schedule_h = schedule_h s @
           [\<lparr>month = month_h s, payments = monthlyPayments st2, totalRemaining = total,
             totalPaid = totalPaid_v st2, totalInterestPaid = totalInterestPaid_v st2\<rparr>],
         month_h = month_h s + 1,
         totalPaid_h = totalPaid_v st2,
         totalInterestPaid_h = totalInterestPaid_v st2\<rparr>)"

definition continues_h :: "HeapLoop \<Rightarrow> bool" where
  "continues_h s \<longleftrightarrow>
     list_ex (\<lambda>a. \<not> isPaidOff_w (workingAt (heap_h s) a)) (workingRefs s) \<and> month_h s \<le> 600"

function while_loop_h :: "real \<Rightarrow> Strategy \<Rightarrow> HeapLoop \<Rightarrow> HeapLoop" where
  "while_loop_h monthlyBudget strategy s =
    (if continues_h s
     then while_loop_h monthlyBudget strategy (monthStep_h monthlyBudget strategy s)
     else s)"
  by pat_completeness auto
termination
  by (relation "measure (\<lambda>(b, g, s). 601 - month_h s)")
     (auto simp: continues_h_def monthStep_h_def Let_def split: prod.splits)

declare while_loop_h.simps [simp del]

text \<open>The whole function on the heap: it returns the heap it leaves and the plan.\<close>

definition calculatePaymentPlan_h :: "heap \<Rightarrow> nat list \<Rightarrow> real \<Rightarrow> Strategy \<Rightarrow> heap \<times> Plan" where
  "calculatePaymentPlan_h h debts monthlyBudget strategy =
    (let (h0, refs) = cloneDebts h debts;
         s = while_loop_h monthlyBudget strategy
               \<lparr>heap_h = h0, workingRefs = refs, schedule_h = [], month_h = 1,
                totalPaid_h = 0, totalInterestPaid_h = 0\<rparr>
     in (heap_h s,
         \<lparr>paymentSchedule = schedule_h s, totalMonths = length (schedule_h s),
          totalInterestPaid_s = totalInterestPaid_h s, totalPaid_s = totalPaid_h s\<rparr>))"

section \<open>The function in double precision\<close>

text \<open>
  A JavaScript \<^verbatim>\<open>number\<close> is an IEEE 754 binary64 value, and every arithmetic
  operation returns the representable number nearest to the exact result, ties going to
  the even significand. \<open>double x\<close> is that number for a real \<open>x\<close>: with \<open>e\<close> the
  exponent of \<open>x\<close>, the multiple of 2 to the power \<open>e - 52\<close> nearest to \<open>x\<close>.
  \<open>binade x\<close> is that exponent, found by halving or doubling. The exponent is not
  bounded here: \<open>double\<close> is the rounding of the machine as long as no result overflows
  (is above the largest double) and no product or quotient underflows (is below 2 to the
  power -1022 in absolute value); sums and differences of doubles that small are exact in
  the machine and here.
\<close>

function binade_pos :: "real \<Rightarrow> int" where
  "binade_pos x =
    (if x \<le> 0 then 0
     else if 2 \<le> x then binade_pos (x / 2) + 1
     else if x < 1 then binade_pos (x * 2) - 1
     else 0)"
  by pat_completeness auto
termination
proof (relation "measure (\<lambda>x. if 2 \<le> x then nat \<lfloor>log 2 x\<rfloor>
    else if x < 1 then nat \<lceil>- log 2 x\<rceil> else 0)")
  show "wf (measure (\<lambda>x::real. if 2 \<le> x then nat \<lfloor>log 2 x\<rfloor>
    else if x < 1 then nat \<lceil>- log 2 x\<rceil> else 0))"
    by simp
next
  fix x :: real
  assume a: "\<not> x \<le> 0" "2 \<le> x"
  have l: "log 2 (x / 2) = log 2 x - 1" using a by (simp add: log_divide)
  have "1 \<le> log 2 x" using a by (simp add: le_log_iff)
  then have "1 \<le> \<lfloor>log 2 x\<rfloor>" by linarith
  moreover have "\<lfloor>log 2 (x / 2)\<rfloor> = \<lfloor>log 2 x\<rfloor> - 1" unfolding l by linarith
  ultimately show "(x / 2, x) \<in> measure (\<lambda>x. if 2 \<le> x then nat \<lfloor>log 2 x\<rfloor>
      else if x < 1 then nat \<lceil>- log 2 x\<rceil> else 0)"
    using a by auto
next
  fix x :: real
  assume a: "\<not> x \<le> 0" "\<not> 2 \<le> x" "x < 1"
  have l: "log 2 (x * 2) = log 2 x + 1" using a by (simp add: log_mult)
  have "log 2 x < 0" using a by simp
  then have "1 \<le> \<lceil>- log 2 x\<rceil>" by linarith
  moreover have "\<lceil>- log 2 (x * 2)\<rceil> = \<lceil>- log 2 x\<rceil> - 1" unfolding l by linarith
  ultimately show "(x * 2, x) \<in> measure (\<lambda>x. if 2 \<le> x then nat \<lfloor>log 2 x\<rfloor>
      else if x < 1 then nat \<lceil>- log 2 x\<rceil> else 0)"
    using a by auto
qed

declare binade_pos.simps [simp del]

definition binade :: "real \<Rightarrow> int" where
  "binade x = binade_pos \<bar>x\<bar>"

definition nearestEven :: "real \<Rightarrow> int" where
  "nearestEven q =
    (let f = \<lfloor>q\<rfloor> in
     if q - of_int f < 1 / 2 then f
     else if 1 / 2 < q - of_int f then f + 1
     else if even f then f else f + 1)"

definition double :: "real \<Rightarrow> real" where
  "double x =
    (if x = 0 then 0
     else let e = binade x - 52 in
       if 0 \<le> e then of_int (nearestEven (x / 2 ^ nat e)) * 2 ^ nat e
       else of_int (nearestEven (x * 2 ^ nat (- e))) / 2 ^ nat (- e))"

text \<open>
  The callback of lines 59 to 95 once more, now with the result of every division,
  product, sum and difference rounded as the machine rounds it. \<^verbatim>\<open>Math.min\<close> and
  \<^verbatim>\<open>Math.max\<close> return one of their arguments and round nothing.
\<close>

definition payMinimum64 :: "WorkingDebt \<Rightarrow> Pass \<Rightarrow> WorkingDebt \<times> Pass" where
  "payMinimum64 debt st =
    (if isPaidOff_w debt then
       (debt, st\<lparr>monthlyPayments := monthlyPayments st @
          [\<lparr>debtId = id_debt debt, amount = 0, remainingBalance = 0, isPaidOff = True\<rparr>]\<rparr>)
     else
       let monthlyInterestRate = double (double (interestRate debt / 100) / 12);
           interestThisMonth = double (remainingBalance_w debt * monthlyInterestRate);
           paymentAmount = min (minimumPayment debt)
                             (double (remainingBalance_w debt + interestThisMonth));
           principalPayment = max 0 (double (paymentAmount - interestThisMonth));
           interestPayment = double (paymentAmount - principalPayment);
           newBalance = max 0 (double (remainingBalance_w debt - principalPayment));
           debt' = debt\<lparr>remainingBalance_w := newBalance, isPaidOff_w := (newBalance = 0)\<rparr>
       in (debt',
           st\<lparr>remainingBudget := double (remainingBudget st - paymentAmount),
              totalPaid_v := double (totalPaid_v st + paymentAmount),
              totalInterestPaid_v := double (totalInterestPaid_v st + interestPayment),
              monthlyPayments := monthlyPayments st @
                [\<lparr>debtId = id_debt debt', amount = paymentAmount,
                  remainingBalance = remainingBalance_w debt',
                  isPaidOff = isPaidOff_w debt'\<rparr>]\<rparr>))"










text \<open>
  The clone of a debt entered as balance 15410.69, rate 16.42 and minimum payment
  30921.38: its fields are the doubles nearest to these decimals.
\<close>

definition residueDebt :: WorkingDebt where
  "residueDebt = \<lparr>id_debt = ''2'', name = ''Card'', balance = double (1541069 / 100),
     interestRate = double (1642 / 100), minimumPayment = double (3092138 / 100),
     remainingBalance_w = double (1541069 / 100), isPaidOff_w = False\<rparr>"

section \<open>Notions used in the statements and proofs\<close>

text \<open>
  What the callback does to one debt does not depend on the variables it updates: the
  debt after its minimum payment, the record pushed for it and the interest added to the
  running total are read off a run of the callback on zeroed variables.
\<close>

definition emptyPass :: Pass where
  "emptyPass = \<lparr>remainingBudget = 0, monthlyPayments = [], totalPaid_v = 0, totalInterestPaid_v = 0\<rparr>"

definition minDebt :: "WorkingDebt \<Rightarrow> WorkingDebt" where
  "minDebt debt = fst (payMinimum debt emptyPass)"

definition minRecord :: "WorkingDebt \<Rightarrow> Payment" where
  "minRecord debt = last (monthlyPayments (snd (payMinimum debt emptyPass)))"

definition minInterest :: "WorkingDebt \<Rightarrow> real" where
  "minInterest debt = totalInterestPaid_v (snd (payMinimum debt emptyPass))"


text \<open>The two assignments to the target of an extra payment \<open>e\<close>, and the three to its record.\<close>

definition extraTo :: "real \<Rightarrow> WorkingDebt \<Rightarrow> WorkingDebt" where
  "extraTo e debt = debt\<lparr>remainingBalance_w := remainingBalance_w debt - e,
      isPaidOff_w := (remainingBalance_w debt - e = 0)\<rparr>"

definition extraRecord :: "real \<Rightarrow> WorkingDebt \<Rightarrow> Payment \<Rightarrow> Payment" where
  "extraRecord e debt p = p\<lparr>amount := amount p + e,
      remainingBalance := remainingBalance_w (extraTo e debt),
      isPaidOff := isPaidOff_w (extraTo e debt)\<rparr>"

text \<open>The sum of the \<^verbatim>\<open>amount\<close> fields of one month's records.\<close>

definition monthAmount :: "MonthlyPayment \<Rightarrow> real" where
  "monthAmount snap = sum_list (map amount (payments snap))"

text \<open>The snapshot that one iteration appends to the schedule.\<close>

definition snapshot :: "real \<Rightarrow> Strategy \<Rightarrow> Loop \<Rightarrow> MonthlyPayment" where
  "snapshot b g s = last (schedule (monthStep b g s))"




text \<open>
  What a heap state is as a state of the loop on values, and when it is well formed: the
  addresses of the working debts are distinct, inside the heap, and not among the first
  \<open>n\<close> addresses, those of the objects that existed before the call.
\<close>

definition valuesOf :: "HeapLoop \<Rightarrow> Loop" where
  "valuesOf s = \<lparr>workingDebts = map (workingAt (heap_h s)) (workingRefs s),
     schedule = schedule_h s, month_v = month_h s,
     totalPaid_l = totalPaid_h s, totalInterestPaid_l = totalInterestPaid_h s\<rparr>"

definition fresh :: "nat \<Rightarrow> heap \<Rightarrow> nat list \<Rightarrow> bool" where
  "fresh n h refs \<longleftrightarrow> distinct refs \<and> list_all (\<lambda>a. n \<le> a \<and> a < length h) refs"

text \<open>
  For the function in double precision: the unit roundoff of binary64, which bounds the
  relative error of one rounding, and the snapshot that one iteration appends.
\<close>

definition roundoff :: real where
  "roundoff = 1 / 2 ^ 53"




text \<open>
  \<open>tracks k E t\<close>: the number \<open>t\<close>, computed with at most \<open>k\<close> roundings, is the exact
  sum \<open>E\<close> of non-negative terms up to \<open>k\<close> relative errors of one roundoff each.
  \<open>agree k t a\<close>: two such numbers \<open>t\<close> and \<open>a\<close>, of which \<open>t\<close> went through \<open>k\<close>
  roundings and \<open>a\<close> through one, are equal up to these errors.
\<close>

definition tracks :: "nat \<Rightarrow> real \<Rightarrow> real \<Rightarrow> bool" where
  "tracks k E t \<longleftrightarrow> 0 \<le> E \<and> E * (1 - roundoff) ^ k \<le> t \<and> t \<le> E * (1 + roundoff) ^ k"


section \<open>Invariants of the loop, as predicates\<close>

text \<open>The month counter is one ahead of the length of the schedule, and stops at 601.\<close>

definition counted :: "Loop \<Rightarrow> bool" where
  "counted s \<longleftrightarrow> month_v s = length (schedule s) + 1 \<and> month_v s \<le> 601"







section \<open>Inputs of the instances\<close>

text \<open>The debt of the spec's scenario A, and a debt with a negative balance.\<close>

definition scenarioA :: Debt where
  "scenarioA = \<lparr>id_debt = ''1'', name = ''A'', balance = 1200, interestRate = 12,
     minimumPayment = 1200\<rparr>"


text \<open>A debt whose minimum payment is above its balance and one month of interest.\<close>

definition boundaryDebt :: Debt where
  "boundaryDebt = \<lparr>id_debt = ''1'', name = ''Card'', balance = 100, interestRate = 12,
     minimumPayment = 500\<rparr>"

text \<open>
  A debt with no interest and no minimum payment. With a budget of 1 a month it gets an
  extra payment of 1 every month; \<open>slowWorking B n\<close> is its clone after \<open>n\<close> months, and
  \<open>slowLoop B\<close> describes the variables of the loop at the head of an iteration.
\<close>

definition slowDebt :: "real \<Rightarrow> Debt" where
  "slowDebt B = \<lparr>id_debt = ''1'', name = ''Loan'', balance = B, interestRate = 0, minimumPayment = 0\<rparr>"

definition slowWorking :: "real \<Rightarrow> nat \<Rightarrow> WorkingDebt" where
  "slowWorking B n = \<lparr>id_debt = ''1'', name = ''Loan'', balance = B, interestRate = 0,
     minimumPayment = 0, remainingBalance_w = B - real n,
     isPaidOff_w = (n \<noteq> 0 \<and> B - real n = 0)\<rparr>"

definition slowLoop :: "real \<Rightarrow> Loop \<Rightarrow> bool" where
  "slowLoop B s \<longleftrightarrow> (\<exists>n\<le>600. month_v s = n + 1 \<and> length (schedule s) = n \<and>
      totalPaid_l s = real n \<and> totalInterestPaid_l s = 0 \<and>
      workingDebts s = [slowWorking B n] \<and>
      (0 < n \<longrightarrow> payments (last (schedule s)) =
          [\<lparr>debtId = ''1'', amount = 1, remainingBalance = B - real n, isPaidOff = (B - real n = 0)\<rparr>]
        \<and> totalRemaining (last (schedule s)) = B - real n))"

text \<open>Two debts without interest, for a run of two months under the snowball strategy.\<close>

definition twoDebts :: "Debt list" where
  "twoDebts =
    [\<lparr>id_debt = ''1'', name = ''Loan'', balance = 100, interestRate = 0, minimumPayment = 10\<rparr>,
     \<lparr>id_debt = ''2'', name = ''Card'', balance = 50, interestRate = 0, minimumPayment = 10\<rparr>]"




text \<open>Two debts with the same id, and two debts of which one has a negative minimum payment.
  All their numbers are small integers, which are doubles.\<close>

definition sameIdDebts :: "Debt list" where
  "sameIdDebts =
    [\<lparr>id_debt = ''1'', name = ''Loan'', balance = 1, interestRate = 0, minimumPayment = 0\<rparr>,
     \<lparr>id_debt = ''1'', name = ''Card'', balance = 2, interestRate = 0, minimumPayment = 0\<rparr>]"








section \<open>The minimum payments in closed form\<close>

lemma payMinimum_closed:
  "payMinimum debt st =
    (minDebt debt,
     st\<lparr>remainingBudget := remainingBudget st - amount (minRecord debt),
        totalPaid_v := totalPaid_v st + amount (minRecord debt),
        totalInterestPaid_v := totalInterestPaid_v st + minInterest debt,
        monthlyPayments := monthlyPayments st @ [minRecord debt]\<rparr>)"
  by (simp add: payMinimum_def minDebt_def minRecord_def minInterest_def emptyPass_def Let_def)

lemma minimumPayments_closed:
  "minimumPayments wds st =
    (map minDebt wds,
     st\<lparr>remainingBudget := remainingBudget st - sum_list (map (amount \<circ> minRecord) wds),
        totalPaid_v := totalPaid_v st + sum_list (map (amount \<circ> minRecord) wds),
        totalInterestPaid_v := totalInterestPaid_v st + sum_list (map minInterest wds),
        monthlyPayments := monthlyPayments st @ map minRecord wds\<rparr>)"
proof (induction wds arbitrary: st)
  case Nil
  show ?case by simp
next
  case (Cons debt rest)
  show ?case
    by (simp add: payMinimum_closed Cons.IH algebra_simps)
qed

lemma minDebt_paid: "isPaidOff_w debt \<Longrightarrow> minDebt debt = debt"
  by (simp add: minDebt_def payMinimum_def)

lemma minDebt_fields:
  "id_debt (minDebt debt) = id_debt debt"
  "interestRate (minDebt debt) = interestRate debt"
  "minimumPayment (minDebt debt) = minimumPayment debt"
  by (simp_all add: minDebt_def payMinimum_def Let_def)



lemma minDebt_stays_paid: "isPaidOff_w debt \<Longrightarrow> isPaidOff_w (minDebt debt)"
  by (simp add: minDebt_paid)

lemma minRecord_debtId: "debtId (minRecord debt) = id_debt debt"
  by (simp add: minRecord_def payMinimum_def Let_def)



lemma minRecord_amount:
  "amount (minRecord debt) =
    (if isPaidOff_w debt then 0
     else min (minimumPayment debt)
            (remainingBalance_w debt + remainingBalance_w debt * (interestRate debt / 100 / 12)))"
  by (simp add: minRecord_def payMinimum_def Let_def)

lemma minRecord_amount_le:
  "0 \<le> minimumPayment debt \<Longrightarrow> amount (minRecord debt) \<le> minimumPayment debt"
  by (simp add: minRecord_amount)

section \<open>Sorting, the target and its record\<close>

lemma set_insort_cmp: "set (insort_cmp cmp x xs) = insert x (set xs)"
  by (induction xs) auto

lemma set_sort_cmp: "set (sort_cmp cmp xs) = set xs"
  by (induction xs) (simp_all add: sort_cmp_def set_insort_cmp)

lemma set_activeDebts: "set (activeDebts wds) = {i. i < length wds \<and> \<not> isPaidOff_w (wds ! i)}"
  by (auto simp: activeDebts_def)

lemma targetDebt_active:
  assumes "targetDebt strategy wds active = Some t"
  shows "t \<in> set active"
proof -
  from assms obtain rest where
    "sort_cmp (\<lambda>i j. comparator strategy (wds ! i) (wds ! j)) active = t # rest"
    by (auto simp: targetDebt_def split: list.splits)
  then have "t \<in> set (sort_cmp (\<lambda>i j. comparator strategy (wds ! i) (wds ! j)) active)"
    by simp
  then show ?thesis by (simp add: set_sort_cmp)
qed

lemma targetDebt_exists:
  assumes "active \<noteq> []"
  shows "\<exists>t. targetDebt strategy wds active = Some t"
proof -
  have "set (sort_cmp (\<lambda>i j. comparator strategy (wds ! i) (wds ! j)) active) \<noteq> {}"
    using assms by (simp add: set_sort_cmp)
  then show ?thesis
    by (auto simp: targetDebt_def split: list.splits)
qed


lemma debtId_updateRecord:
  "(\<And>p. debtId (f p) = debtId p) \<Longrightarrow> map debtId (updateRecord i f ps) = map debtId ps"
  by (induction ps) auto

lemma sum_amount_updateRecord:
  "i \<in> set (map debtId ps) \<Longrightarrow> (\<And>p. amount (f p) = amount p + e) \<Longrightarrow>
   sum_list (map amount (updateRecord i f ps)) = sum_list (map amount ps) + e"
  by (induction ps) auto

lemma updateRecord_distinct:
  "distinct (map debtId ps) \<Longrightarrow> t < length ps \<Longrightarrow> debtId (ps ! t) = i \<Longrightarrow>
   updateRecord i f ps = ps[t := f (ps ! t)]"
proof (induction ps arbitrary: t)
  case Nil
  then show ?case by simp
next
  case (Cons p ps)
  show ?case
  proof (cases t)
    case 0
    with Cons.prems show ?thesis by simp
  next
    case (Suc k)
    with Cons.prems have "debtId p \<noteq> i" by auto
    with Cons Suc show ?thesis by simp
  qed
qed

lemma applyExtra_cases:
  assumes "applyExtra strategy wds st = (wds', st')"
  obtains (unspent) "wds' = wds" "st' = st"
  | (extra) t where "t < length wds" "\<not> isPaidOff_w (wds ! t)" "0 < remainingBudget st"
      "targetDebt strategy wds (activeDebts wds) = Some t"
      "wds' = wds[t := extraTo (min (remainingBudget st) (remainingBalance_w (wds ! t))) (wds ! t)]"
      "st' = st\<lparr>monthlyPayments :=
                 updateRecord (id_debt (wds ! t))
                   (\<lambda>p. p\<lparr>amount := amount p + min (remainingBudget st) (remainingBalance_w (wds ! t)),
                           remainingBalance := remainingBalance_w (wds ! t)
                              - min (remainingBudget st) (remainingBalance_w (wds ! t)),
                           isPaidOff := (remainingBalance_w (wds ! t)
                              - min (remainingBudget st) (remainingBalance_w (wds ! t)) = 0)\<rparr>)
                   (monthlyPayments st),
               totalPaid_v := totalPaid_v st + min (remainingBudget st) (remainingBalance_w (wds ! t))\<rparr>"
proof (cases "0 < remainingBudget st \<and> activeDebts wds \<noteq> []")
  case False
  with assms have "wds' = wds" "st' = st"
    by (auto simp: applyExtra_def Let_def split: if_splits)
  then show ?thesis by (rule unspent)
next
  case True
  then obtain t where t: "targetDebt strategy wds (activeDebts wds) = Some t"
    using targetDebt_exists by blast
  then have "t \<in> set (activeDebts wds)" by (rule targetDebt_active)
  then have a: "t < length wds" "\<not> isPaidOff_w (wds ! t)"
    by (simp_all add: set_activeDebts)
  from True t assms have
    "wds' = wds[t := extraTo (min (remainingBudget st) (remainingBalance_w (wds ! t))) (wds ! t)]"
    by (auto simp: applyExtra_def Let_def extraTo_def)
  moreover from True t assms have "st' = st\<lparr>monthlyPayments :=
                 updateRecord (id_debt (wds ! t))
                   (\<lambda>p. p\<lparr>amount := amount p + min (remainingBudget st) (remainingBalance_w (wds ! t)),
                           remainingBalance := remainingBalance_w (wds ! t)
                              - min (remainingBudget st) (remainingBalance_w (wds ! t)),
                           isPaidOff := (remainingBalance_w (wds ! t)
                              - min (remainingBudget st) (remainingBalance_w (wds ! t)) = 0)\<rparr>)
                   (monthlyPayments st),
               totalPaid_v := totalPaid_v st + min (remainingBudget st) (remainingBalance_w (wds ! t))\<rparr>"
    by (auto simp: applyExtra_def Let_def)
  ultimately show ?thesis using a True t by (intro extra[of t]) auto
qed

section \<open>One month\<close>

lemma foldl_sum: "foldl (\<lambda>sum debt. sum + f debt) a xs = a + sum_list (map f xs)"
  by (induction xs arbitrary: a) (simp_all add: algebra_simps)

lemma monthStep_cases:
  fixes b g s
  defines "wds1 \<equiv> map minDebt (workingDebts s)"
    and "recs1 \<equiv> map minRecord (workingDebts s)"
    and "tp1 \<equiv> totalPaid_l s + sum_list (map (amount \<circ> minRecord) (workingDebts s))"
    and "ti1 \<equiv> totalInterestPaid_l s + sum_list (map minInterest (workingDebts s))"
    and "rb1 \<equiv> b - sum_list (map (amount \<circ> minRecord) (workingDebts s))"
  obtains (unspent) "monthStep b g s =
      \<lparr>workingDebts = wds1,
       schedule = schedule s @
         [\<lparr>month = month_v s, payments = recs1,
           totalRemaining = sum_list (map remainingBalance_w wds1),
           totalPaid = tp1, totalInterestPaid = ti1\<rparr>],
       month_v = month_v s + 1, totalPaid_l = tp1, totalInterestPaid_l = ti1\<rparr>"
  | (extra) t e where "t < length wds1" "\<not> isPaidOff_w (wds1 ! t)" "0 < rb1"
      "e = min rb1 (remainingBalance_w (wds1 ! t))"
      "targetDebt g wds1 (activeDebts wds1) = Some t"
      "monthStep b g s =
      \<lparr>workingDebts = wds1[t := extraTo e (wds1 ! t)],
       schedule = schedule s @
         [\<lparr>month = month_v s,
           payments = updateRecord (id_debt (wds1 ! t)) (extraRecord e (wds1 ! t)) recs1,
           totalRemaining = sum_list (map remainingBalance_w (wds1[t := extraTo e (wds1 ! t)])),
           totalPaid = tp1 + e, totalInterestPaid = ti1\<rparr>],
       month_v = month_v s + 1, totalPaid_l = tp1 + e, totalInterestPaid_l = ti1\<rparr>"
proof -
  define st1 where "st1 = \<lparr>remainingBudget = rb1, monthlyPayments = recs1,
      totalPaid_v = tp1, totalInterestPaid_v = ti1\<rparr>"
  have mp: "minimumPayments (workingDebts s)
      \<lparr>remainingBudget = b, monthlyPayments = [],
       totalPaid_v = totalPaid_l s, totalInterestPaid_v = totalInterestPaid_l s\<rparr> = (wds1, st1)"
    by (simp add: minimumPayments_closed st1_def wds1_def recs1_def tp1_def ti1_def rb1_def)
  obtain wds2 st2 where ae: "applyExtra g wds1 st1 = (wds2, st2)"
    by (cases "applyExtra g wds1 st1")
  have ms: "monthStep b g s =
      \<lparr>workingDebts = wds2,
       schedule = schedule s @
         [\<lparr>month = month_v s, payments = monthlyPayments st2,
           totalRemaining = sum_list (map remainingBalance_w wds2),
           totalPaid = totalPaid_v st2, totalInterestPaid = totalInterestPaid_v st2\<rparr>],
       month_v = month_v s + 1, totalPaid_l = totalPaid_v st2,
       totalInterestPaid_l = totalInterestPaid_v st2\<rparr>"
    by (simp add: monthStep_def mp ae foldl_sum)
  from ae show ?thesis
  proof (cases rule: applyExtra_cases)
    case unspent
    with ms show ?thesis by (intro that(1)) (simp add: st1_def)
  next
    case (extra t)
    define e where "e = min rb1 (remainingBalance_w (wds1 ! t))"
    have "extraRecord e (wds1 ! t) =
      (\<lambda>p. p\<lparr>amount := amount p + e, remainingBalance := remainingBalance_w (wds1 ! t) - e,
              isPaidOff := (remainingBalance_w (wds1 ! t) - e = 0)\<rparr>)"
      by (simp add: extraRecord_def extraTo_def fun_eq_iff)
    with extra ms show ?thesis
      by (intro that(2)[of t e]) (simp_all add: st1_def e_def)
  qed
qed

lemma schedule_monthStep: "schedule (monthStep b g s) = schedule s @ [snapshot b g s]"
  unfolding snapshot_def by (cases rule: monthStep_cases[of b g s]) simp_all

lemma month_v_monthStep: "month_v (monthStep b g s) = month_v s + 1"
  by (cases rule: monthStep_cases[of b g s]) simp_all

lemma month_snapshot: "month (snapshot b g s) = month_v s"
  unfolding snapshot_def by (cases rule: monthStep_cases[of b g s]) simp_all

lemma totalPaid_snapshot: "totalPaid (snapshot b g s) = totalPaid_l (monthStep b g s)"
  unfolding snapshot_def by (cases rule: monthStep_cases[of b g s]) simp_all

lemma totalInterestPaid_snapshot:
  "totalInterestPaid (snapshot b g s) = totalInterestPaid_l (monthStep b g s)"
  unfolding snapshot_def by (cases rule: monthStep_cases[of b g s]) simp_all




lemma extraTo_fields:
  "id_debt (extraTo e debt) = id_debt debt"
  "interestRate (extraTo e debt) = interestRate debt"
  "minimumPayment (extraTo e debt) = minimumPayment debt"
  by (simp_all add: extraTo_def)

lemma map_update_same: "t < length xs \<Longrightarrow> f y = f (xs ! t) \<Longrightarrow> map f (xs[t := y]) = map f xs"
  by (simp add: list_eq_iff_nth_eq nth_list_update)


lemma minimumPayment_monthStep:
  "map minimumPayment (workingDebts (monthStep b g s)) = map minimumPayment (workingDebts s)"
  by (cases rule: monthStep_cases[of b g s])
     (simp_all add: map_update_same extraTo_fields minDebt_fields comp_def)

lemma debtId_snapshot:
  "map debtId (payments (snapshot b g s)) = map id_debt (workingDebts s)"
  unfolding snapshot_def
  by (cases rule: monthStep_cases[of b g s])
     (simp_all add: debtId_updateRecord extraRecord_def minRecord_debtId comp_def)

lemma totalPaid_monthStep:
  "totalPaid_l (monthStep b g s) = totalPaid_l s + monthAmount (snapshot b g s)"
proof (cases rule: monthStep_cases[of b g s])
  case unspent
  then show ?thesis by (simp add: snapshot_def monthAmount_def comp_def)
next
  case (extra t e)
  have "id_debt (map minDebt (workingDebts s) ! t) \<in> set (map debtId (map minRecord (workingDebts s)))"
    using extra(1) by (simp add: minRecord_debtId minDebt_fields comp_def)
  then have "sum_list (map amount (updateRecord (id_debt (map minDebt (workingDebts s) ! t))
         (extraRecord e (map minDebt (workingDebts s) ! t)) (map minRecord (workingDebts s))))
       = sum_list (map amount (map minRecord (workingDebts s))) + e"
    by (rule sum_amount_updateRecord) (simp add: extraRecord_def)
  with extra(6) show ?thesis by (simp add: snapshot_def monthAmount_def comp_def)
qed

section \<open>Invariants of the loop\<close>

lemma while_loop_invariant:
  assumes "P s" and "\<And>t. P t \<Longrightarrow> continues t \<Longrightarrow> P (monthStep b g t)"
  shows "P (while_loop b g s)"
  using assms
proof (induction b g s rule: while_loop.induct)
  case (1 b g s)
  show ?case
  proof (cases "continues s")
    case True
    then have "P (monthStep b g s)" using "1.prems" by blast
    then have "P (while_loop b g (monthStep b g s))"
      using True "1.IH" "1.prems"(2) by blast
    then show ?thesis using True by (subst while_loop.simps) simp
  next
    case False
    with "1.prems"(1) show ?thesis by (subst while_loop.simps) simp
  qed
qed

lemma while_loop_stops: "\<not> continues (while_loop b g s)"
proof (induction b g s rule: while_loop.induct)
  case (1 b g s)
  then show ?case by (subst while_loop.simps) simp
qed

lemma simulate_initial: "simulate debts b g = while_loop b g (initial debts)"
  by (simp add: simulate_def)

lemma counted_simulate: "counted (simulate debts b g)"
  unfolding simulate_initial
proof (rule while_loop_invariant)
  show "counted (initial debts)" by (simp add: counted_def initial_def)
next
  fix t assume "counted t" "continues t"
  then show "counted (monthStep b g t)"
    by (simp add: counted_def continues_def month_v_monthStep schedule_monthStep)
qed

section \<open>Termination and the cap of 600 months\<close>

text \<open>
  Claim C1, as amended. The spec says that a budget above the total of the minimum
  payments, with rates that are not negative, gives full payoff within 600 months. The
  loop does not promise that: it stops after 600 months whatever the balances are. What
  holds for every input is that the schedule has at most 600 months, and that the loop
  ends either with every working debt paid off or with a schedule of exactly 600 months.
\<close>

theorem schedule_at_most_600:
  "totalMonths (calculatePaymentPlan debts b g) \<le> 600
   \<and> length (paymentSchedule (calculatePaymentPlan debts b g))
       = totalMonths (calculatePaymentPlan debts b g)
   \<and> (list_all isPaidOff_w (workingDebts (simulate debts b g))
      \<or> totalMonths (calculatePaymentPlan debts b g) = 600)"
proof -
  have c: "counted (simulate debts b g)" by (rule counted_simulate)
  have "\<not> continues (simulate debts b g)"
    unfolding simulate_initial by (rule while_loop_stops)
  then have "list_all isPaidOff_w (workingDebts (simulate debts b g)) \<or> 600 < month_v (simulate debts b g)"
    by (auto simp: continues_def list_all_iff list_ex_iff)
  with c show ?thesis by (auto simp: counted_def calculatePaymentPlan_def Let_def)
qed

section \<open>A debt that 600 months do not pay off\<close>

lemma slow_monthStep:
  assumes "600 \<le> B" "n < 600"
  shows "monthStep 1 g \<lparr>workingDebts = [slowWorking B n], schedule = sch, month_v = n + 1,
            totalPaid_l = real n, totalInterestPaid_l = 0\<rparr> =
        \<lparr>workingDebts = [slowWorking B (n + 1)],
         schedule = sch @ [\<lparr>month = n + 1,
            payments = [\<lparr>debtId = ''1'', amount = 1, remainingBalance = B - real (n + 1),
                         isPaidOff = (B - real (n + 1) = 0)\<rparr>],
            totalRemaining = B - real (n + 1), totalPaid = real (n + 1), totalInterestPaid = 0\<rparr>],
         month_v = n + 2, totalPaid_l = real (n + 1), totalInterestPaid_l = 0\<rparr>"
proof -
  have pos: "1 \<le> B - real n" using assms by simp
  then have np: "\<not> isPaidOff_w (slowWorking B n)" by (simp add: slowWorking_def)
  show ?thesis
    using pos
    by (auto simp: monthStep_def payMinimum_def applyExtra_def activeDebts_def targetDebt_def
        sort_cmp_def Let_def slowWorking_def)
qed

lemma slowLoop_monthStep:
  assumes B: "600 \<le> B" and inv: "slowLoop B t" and c: "continues t"
  shows "slowLoop B (monthStep 1 g t)"
proof -
  from inv obtain n where n: "n \<le> 600" "month_v t = n + 1" "length (schedule t) = n"
      "totalPaid_l t = real n" "totalInterestPaid_l t = 0" "workingDebts t = [slowWorking B n]"
    unfolding slowLoop_def by blast
  from c n have lt: "n < 600" by (simp add: continues_def)
  have t: "t = \<lparr>workingDebts = [slowWorking B n], schedule = schedule t, month_v = n + 1,
            totalPaid_l = real n, totalInterestPaid_l = 0\<rparr>"
    using n by simp
  have "monthStep 1 g t = \<lparr>workingDebts = [slowWorking B (n + 1)],
         schedule = schedule t @ [\<lparr>month = n + 1,
            payments = [\<lparr>debtId = ''1'', amount = 1, remainingBalance = B - real (n + 1),
                         isPaidOff = (B - real (n + 1) = 0)\<rparr>],
            totalRemaining = B - real (n + 1), totalPaid = real (n + 1), totalInterestPaid = 0\<rparr>],
         month_v = n + 2, totalPaid_l = real (n + 1), totalInterestPaid_l = 0\<rparr>"
    by (subst t) (rule slow_monthStep[OF B lt])
  then show ?thesis
    unfolding slowLoop_def using lt n(3) by (intro exI[of _ "n + 1"]) simp
qed

lemma slowLoop_simulate:
  assumes "600 \<le> B"
  shows "slowLoop B (simulate [slowDebt B] 1 g)"
  unfolding simulate_initial
proof (rule while_loop_invariant)
  show "slowLoop B (initial [slowDebt B])"
    by (simp add: slowLoop_def initial_def clone_def slowDebt_def slowWorking_def)
next
  fix t assume "slowLoop B t" "continues t"
  with assms show "slowLoop B (monthStep 1 g t)" by (rule slowLoop_monthStep)
qed

lemma slow_result:
  assumes "600 \<le> B"
  shows "length (schedule (simulate [slowDebt B] 1 g)) = 600"
    and "totalPaid_l (simulate [slowDebt B] 1 g) = 600"
    and "totalInterestPaid_l (simulate [slowDebt B] 1 g) = 0"
    and "workingDebts (simulate [slowDebt B] 1 g) = [slowWorking B 600]"
    and "payments (last (schedule (simulate [slowDebt B] 1 g))) =
          [\<lparr>debtId = ''1'', amount = 1, remainingBalance = B - 600, isPaidOff = (B = 600)\<rparr>]"
    and "totalRemaining (last (schedule (simulate [slowDebt B] 1 g))) = B - 600"
proof -
  let ?s = "simulate [slowDebt B] 1 g"
  from slowLoop_simulate[OF assms] obtain n where n: "n \<le> 600" "month_v ?s = n + 1"
      "length (schedule ?s) = n" "totalPaid_l ?s = real n" "totalInterestPaid_l ?s = 0"
      "workingDebts ?s = [slowWorking B n]"
      "0 < n \<longrightarrow> payments (last (schedule ?s)) =
          [\<lparr>debtId = ''1'', amount = 1, remainingBalance = B - real n, isPaidOff = (B - real n = 0)\<rparr>]
        \<and> totalRemaining (last (schedule ?s)) = B - real n"
    unfolding slowLoop_def by blast
  have "\<not> continues ?s" unfolding simulate_initial by (rule while_loop_stops)
  with n have "n = 600 \<or> (n \<noteq> 0 \<and> B - real n = 0)"
    by (auto simp: continues_def slowWorking_def)
  with assms n(1) have "n = 600" by auto
  with n show "length (schedule ?s) = 600" "totalPaid_l ?s = 600" "totalInterestPaid_l ?s = 0"
    "workingDebts ?s = [slowWorking B 600]"
    "payments (last (schedule ?s)) =
          [\<lparr>debtId = ''1'', amount = 1, remainingBalance = B - 600, isPaidOff = (B = 600)\<rparr>]"
    "totalRemaining (last (schedule ?s)) = B - 600"
    by auto
qed

text \<open>
  Claim C1 as the spec states it fails. The debt has balance 1000, rate 0 and minimum
  payment 0, and the budget is 1: the budget exceeds the total of the minimum payments
  and the rate is not negative, yet after the loop the debt is not paid off, and the
  record of the last month says so.
\<close>

theorem payoff_within_600_counterexample:
  "minimumPayment (slowDebt 1000) < 1 \<and> 0 \<le> interestRate (slowDebt 1000)
   \<and> \<not> list_all isPaidOff_w (workingDebts (simulate [slowDebt 1000] 1 avalanche))
   \<and> \<not> list_all isPaidOff
        (payments (last (paymentSchedule (calculatePaymentPlan [slowDebt 1000] 1 avalanche))))
   \<and> totalMonths (calculatePaymentPlan [slowDebt 1000] 1 avalanche) = 600"
proof -
  have h: "(600::real) \<le> 1000" by simp
  have "\<not> isPaidOff_w (slowWorking 1000 600)" by (simp add: slowWorking_def)
  then have "\<not> list_all isPaidOff_w (workingDebts (simulate [slowDebt 1000] 1 avalanche))"
    by (simp add: slow_result(4)[OF h])
  moreover have "\<not> list_all isPaidOff
        (payments (last (schedule (simulate [slowDebt 1000] 1 avalanche))))"
    by (simp add: slow_result(5)[OF h])
  moreover have "length (schedule (simulate [slowDebt 1000] 1 avalanche)) = 600"
    by (rule slow_result(1)[OF h])
  moreover have "minimumPayment (slowDebt 1000) < 1 \<and> 0 \<le> interestRate (slowDebt 1000)"
    by (simp add: slowDebt_def)
  ultimately show ?thesis by (simp add: calculatePaymentPlan_def Let_def)
qed

section \<open>Runs on given debts\<close>

text \<open>The definitions to unfold for running the function on given debts.\<close>

lemmas run_simps = calculatePaymentPlan_def simulate_def while_loop.simps continues_def
  monthStep_def payMinimum_def applyExtra_def activeDebts_def targetDebt_def sort_cmp_def
  initial_def clone_def Let_def

text \<open>
  Two instances of the bound of 600 months: scenario A ends after two months with its
  debt paid off, and the debt of 1000 under a budget of 1 ends at the cap and not paid
  off.
\<close>

theorem schedule_at_most_600_witness:
  "totalMonths (calculatePaymentPlan [scenarioA] 1200 avalanche) = 2
   \<and> list_all isPaidOff_w (workingDebts (simulate [scenarioA] 1200 avalanche))
   \<and> totalMonths (calculatePaymentPlan [slowDebt 1000] 1 avalanche) = 600
   \<and> \<not> list_all isPaidOff_w (workingDebts (simulate [slowDebt 1000] 1 avalanche))"
proof -
  have h: "(600::real) \<le> 1000" by simp
  have "\<not> list_all isPaidOff_w (workingDebts (simulate [slowDebt 1000] 1 avalanche))"
    by (simp add: slow_result(4)[OF h] slowWorking_def)
  moreover have "totalMonths (calculatePaymentPlan [scenarioA] 1200 avalanche) = 2
      \<and> list_all isPaidOff_w (workingDebts (simulate [scenarioA] 1200 avalanche))"
    by (simp add: run_simps scenarioA_def)
  moreover note schedule_at_most_600[of "[slowDebt 1000]" 1 avalanche]
    schedule_at_most_600[of "[scenarioA]" 1200 avalanche]
  ultimately show ?thesis by blast
qed

section \<open>Scenario A\<close>

text \<open>
  Claim C2, as amended. For the single debt of scenario A (balance 1200, rate 12,
  minimum payment 1200) and a budget of 1200, whatever the strategy: month 1 pays the
  minimum payment of 1200, of which 12 is interest, and leaves a balance of 12; month 2
  pays 12.12 and reaches balance 0. So the payoff is in month 2, the total interest is
  12.12 and the total paid is 1212.12.
\<close>

theorem scenarioA_plan:
  "calculatePaymentPlan [scenarioA] 1200 strategy =
    \<lparr>paymentSchedule =
      [\<lparr>month = 1,
        payments = [\<lparr>debtId = ''1'', amount = 1200, remainingBalance = 12, isPaidOff = False\<rparr>],
        totalRemaining = 12, totalPaid = 1200, totalInterestPaid = 12\<rparr>,
       \<lparr>month = 2,
        payments = [\<lparr>debtId = ''1'', amount = 1212 / 100, remainingBalance = 0, isPaidOff = True\<rparr>],
        totalRemaining = 0, totalPaid = 121212 / 100, totalInterestPaid = 1212 / 100\<rparr>],
     totalMonths = 2, totalInterestPaid_s = 1212 / 100, totalPaid_s = 121212 / 100\<rparr>"
  by (simp add: run_simps scenarioA_def)

text \<open>
  Claim C2 as the spec states it (payoff in month 1, total interest about 12.00, total
  paid about 1212.00) fails on this input: the schedule has two months, and both totals
  are off by 0.12.
\<close>

theorem scenarioA_counterexample:
  "\<not> (totalMonths (calculatePaymentPlan [scenarioA] 1200 avalanche) = 1
     \<and> \<bar>totalInterestPaid_s (calculatePaymentPlan [scenarioA] 1200 avalanche) - 12\<bar> < 1 / 100
     \<and> \<bar>totalPaid_s (calculatePaymentPlan [scenarioA] 1200 avalanche) - 1212\<bar> < 1 / 100)"
  by (simp add: run_simps scenarioA_def)

section \<open>Invalid input\<close>






section \<open>The target of the avalanche strategy\<close>

lemma sort_cmp_Cons: "sort_cmp cmp (x # xs) = insort_cmp cmp x (sort_cmp cmp xs)"
  by (simp add: sort_cmp_def)





lemma extraRecord_fun:
  "extraRecord e debt =
    (\<lambda>p. p\<lparr>amount := amount p + e, remainingBalance := remainingBalance_w debt - e,
            isPaidOff := (remainingBalance_w debt - e = 0)\<rparr>)"
  by (simp add: fun_eq_iff extraRecord_def extraTo_def)





section \<open>The records of a month when the ids are distinct\<close>

lemma updateRecord_minRecord:
  assumes "distinct (map id_debt wds)" and "t < length wds"
  shows "updateRecord (id_debt (minDebt (wds ! t))) f (map minRecord wds) =
         (map minRecord wds)[t := f (minRecord (wds ! t))]"
proof -
  have "distinct (map debtId (map minRecord wds))"
    using assms(1) by (simp add: comp_def minRecord_debtId)
  moreover have "t < length (map minRecord wds)" using assms(2) by simp
  moreover have "debtId (map minRecord wds ! t) = id_debt (minDebt (wds ! t))"
    using assms(2) by (simp add: minRecord_debtId minDebt_fields)
  ultimately have "updateRecord (id_debt (minDebt (wds ! t))) f (map minRecord wds) =
         (map minRecord wds)[t := f (map minRecord wds ! t)]"
    by (rule updateRecord_distinct)
  with assms(2) show ?thesis by simp
qed

text \<open>
  With distinct ids, record \<open>i\<close> of the month is the record of working debt \<open>i\<close>: the one
  pushed after its minimum payment, with the extra payment on it when it is the target.
\<close>

lemma monthStep_nth:
  assumes dist: "distinct (map id_debt (workingDebts s))" and i: "i < length (workingDebts s)"
  obtains (minimum) "workingDebts (monthStep b g s) ! i = minDebt (workingDebts s ! i)"
      "payments (snapshot b g s) ! i = minRecord (workingDebts s ! i)"
  | (target) e where "\<not> isPaidOff_w (minDebt (workingDebts s ! i))"
      "0 < b - sum_list (map (amount \<circ> minRecord) (workingDebts s))"
      "e = min (b - sum_list (map (amount \<circ> minRecord) (workingDebts s)))
                (remainingBalance_w (minDebt (workingDebts s ! i)))"
      "workingDebts (monthStep b g s) ! i = extraTo e (minDebt (workingDebts s ! i))"
      "payments (snapshot b g s) ! i =
         extraRecord e (minDebt (workingDebts s ! i)) (minRecord (workingDebts s ! i))"
proof (cases rule: monthStep_cases[of b g s])
  case unspent
  with i show ?thesis by (intro minimum) (simp_all add: snapshot_def)
next
  case (extra t e)
  from extra(1) have t: "t < length (workingDebts s)" by simp
  have upd: "updateRecord (id_debt (minDebt (workingDebts s ! t)))
      (extraRecord e (minDebt (workingDebts s ! t))) (map minRecord (workingDebts s)) =
      (map minRecord (workingDebts s))
        [t := extraRecord e (minDebt (workingDebts s ! t)) (minRecord (workingDebts s ! t))]"
    using dist t by (rule updateRecord_minRecord)
  show ?thesis
  proof (cases "i = t")
    case True
    show ?thesis
    proof (rule target[of e])
      show "\<not> isPaidOff_w (minDebt (workingDebts s ! i))" using extra(2) True t by simp
      show "e = min (b - sum_list (map (amount \<circ> minRecord) (workingDebts s)))
                (remainingBalance_w (minDebt (workingDebts s ! i)))"
        using extra(4) True t by simp
      show "workingDebts (monthStep b g s) ! i = extraTo e (minDebt (workingDebts s ! i))"
        using extra(6) True t by simp
      show "payments (snapshot b g s) ! i =
         extraRecord e (minDebt (workingDebts s ! i)) (minRecord (workingDebts s ! i))"
        using extra(6) True t by (simp add: snapshot_def upd)
      show "0 < b - sum_list (map (amount \<circ> minRecord) (workingDebts s))"
        using extra(3) by simp
    qed
  next
    case False
    with extra(6) i t show ?thesis
      by (intro minimum) (simp_all add: snapshot_def upd)
  qed
qed

section \<open>What a month does to one working debt\<close>

lemma workingDebts_monthStep_nth:
  assumes i: "i < length (workingDebts s)"
  obtains (minimum) "workingDebts (monthStep b g s) ! i = minDebt (workingDebts s ! i)"
  | (target) "\<not> isPaidOff_w (minDebt (workingDebts s ! i))"
      "0 < b - sum_list (map (amount \<circ> minRecord) (workingDebts s))"
      "workingDebts (monthStep b g s) ! i =
         extraTo (min (b - sum_list (map (amount \<circ> minRecord) (workingDebts s)))
                   (remainingBalance_w (minDebt (workingDebts s ! i))))
           (minDebt (workingDebts s ! i))"
proof (cases rule: monthStep_cases[of b g s])
  case unspent
  with i show ?thesis by (intro minimum) simp
next
  case (extra t e)
  show ?thesis
  proof (cases "i = t")
    case True
    with extra i show ?thesis by (intro target) simp_all
  next
    case False
    with extra(6) i show ?thesis by (intro minimum) simp
  qed
qed






section \<open>A minimum payment above the balance and its interest\<close>

lemma minDebt_boundary:
  assumes "\<not> isPaidOff_w debt"
    and "remainingBalance_w debt + remainingBalance_w debt * (interestRate debt / 100 / 12)
           < minimumPayment debt"
  shows "minDebt debt = debt\<lparr>remainingBalance_w := 0, isPaidOff_w := True\<rparr>"
    and "minRecord debt = \<lparr>debtId = id_debt debt,
           amount = remainingBalance_w debt + remainingBalance_w debt * (interestRate debt / 100 / 12),
           remainingBalance = 0, isPaidOff = True\<rparr>"
  using assms by (simp_all add: minDebt_def minRecord_def payMinimum_def Let_def)

text \<open>
  In exact arithmetic the cap on the minimum payment does what it is meant to do. Take a
  working debt that is not paid off and whose minimum payment exceeds its remaining
  balance plus the interest of the month. The callback pays exactly the remaining
  balance plus that interest and leaves the balance at 0 with the debt paid off. At the
  end of the month the working debt is still in that state, and, the ids of the debts
  being distinct, the record of the debt in the schedule shows that amount, a remaining
  balance of 0 and the debt paid off.
\<close>

theorem minimum_payment_clamped_to_payoff:
  assumes "i < length (workingDebts s)" and "debt = workingDebts s ! i"
    and "\<not> isPaidOff_w debt"
    and "remainingBalance_w debt + remainingBalance_w debt * (interestRate debt / 100 / 12)
           < minimumPayment debt"
  shows "fst (payMinimum debt st) = debt\<lparr>remainingBalance_w := 0, isPaidOff_w := True\<rparr> \<and>
         remainingBudget (snd (payMinimum debt st)) = remainingBudget st -
           (remainingBalance_w debt + remainingBalance_w debt * (interestRate debt / 100 / 12)) \<and>
         workingDebts (monthStep b g s) ! i = debt\<lparr>remainingBalance_w := 0, isPaidOff_w := True\<rparr> \<and>
         (distinct (map id_debt (workingDebts s)) \<longrightarrow>
            payments (snapshot b g s) ! i =
              \<lparr>debtId = id_debt debt,
               amount = remainingBalance_w debt
                          + remainingBalance_w debt * (interestRate debt / 100 / 12),
               remainingBalance = 0, isPaidOff = True\<rparr>)"
proof -
  note bd = minDebt_boundary[OF assms(3,4)]
  have paid: "isPaidOff_w (minDebt (workingDebts s ! i))" using bd(1) assms(2) by simp
  have a: "fst (payMinimum debt st) = debt\<lparr>remainingBalance_w := 0, isPaidOff_w := True\<rparr>"
    using bd(1) by (simp add: payMinimum_closed)
  have b: "remainingBudget (snd (payMinimum debt st)) = remainingBudget st -
           (remainingBalance_w debt + remainingBalance_w debt * (interestRate debt / 100 / 12))"
    using bd(2) by (simp add: payMinimum_closed)
  have c: "workingDebts (monthStep b g s) ! i = debt\<lparr>remainingBalance_w := 0, isPaidOff_w := True\<rparr>"
    using assms(1)
  proof (cases rule: workingDebts_monthStep_nth[of i s b g])
    case minimum
    with bd(1) assms(2) show ?thesis by simp
  next
    case target
    with paid show ?thesis by simp
  qed
  have d: "payments (snapshot b g s) ! i =
              \<lparr>debtId = id_debt debt,
               amount = remainingBalance_w debt
                          + remainingBalance_w debt * (interestRate debt / 100 / 12),
               remainingBalance = 0, isPaidOff = True\<rparr>"
    if dist: "distinct (map id_debt (workingDebts s))"
    using dist assms(1)
  proof (cases rule: monthStep_nth[of s i b g])
    case minimum
    with bd(2) assms(2) show ?thesis by simp
  next
    case (target e)
    with paid show ?thesis by simp
  qed
  from a b c d show ?thesis by blast
qed

theorem minimum_payment_clamped_to_payoff_witness:
  "0 < length (workingDebts (initial [boundaryDebt]))
   \<and> \<not> isPaidOff_w (clone boundaryDebt)
   \<and> remainingBalance_w (clone boundaryDebt)
        + remainingBalance_w (clone boundaryDebt) * (interestRate (clone boundaryDebt) / 100 / 12)
      < minimumPayment (clone boundaryDebt)
   \<and> fst (payMinimum (clone boundaryDebt) emptyPass)
       = (clone boundaryDebt)\<lparr>remainingBalance_w := 0, isPaidOff_w := True\<rparr>
   \<and> remainingBudget (snd (payMinimum (clone boundaryDebt) emptyPass)) = - 101
   \<and> workingDebts (monthStep 500 avalanche (initial [boundaryDebt])) ! 0
       = (clone boundaryDebt)\<lparr>remainingBalance_w := 0, isPaidOff_w := True\<rparr>
   \<and> payments (snapshot 500 avalanche (initial [boundaryDebt])) ! 0
       = \<lparr>debtId = ''1'', amount = 101, remainingBalance = 0, isPaidOff = True\<rparr>"
proof -
  have h1: "0 < length (workingDebts (initial [boundaryDebt]))" by (simp add: initial_def)
  have h2: "clone boundaryDebt = workingDebts (initial [boundaryDebt]) ! 0" by (simp add: initial_def)
  have h3: "\<not> isPaidOff_w (clone boundaryDebt)" by (simp add: clone_def)
  have h4: "remainingBalance_w (clone boundaryDebt)
        + remainingBalance_w (clone boundaryDebt) * (interestRate (clone boundaryDebt) / 100 / 12)
      < minimumPayment (clone boundaryDebt)"
    by (simp add: clone_def boundaryDebt_def)
  have d: "distinct (map id_debt (workingDebts (initial [boundaryDebt])))" by (simp add: initial_def)
  from minimum_payment_clamped_to_payoff[OF h1 h2 h3 h4, of emptyPass 500 avalanche] d h1 h3 h4
  show ?thesis by (simp add: clone_def boundaryDebt_def emptyPass_def)
qed

section \<open>Monotone balances\<close>











text \<open>
  The ids have to be distinct for this. When two debts share an id, the extra payment to
  the second one is written on the record of the first: under the snowball strategy and
  a budget of 1, the records of the first of two such debts, with balances 1 and 2, show
  balance 0 and paid off in month 1, and balance 1 and not paid off in month 2.
\<close>

lemma sameIdDebts_records:
  "map (\<lambda>snap. payments snap ! 0)
     (paymentSchedule (calculatePaymentPlan sameIdDebts 1 snowball)) =
    [\<lparr>debtId = ''1'', amount = 1, remainingBalance = 0, isPaidOff = True\<rparr>,
     \<lparr>debtId = ''1'', amount = 1, remainingBalance = 1, isPaidOff = False\<rparr>,
     \<lparr>debtId = ''1'', amount = 1, remainingBalance = 0, isPaidOff = True\<rparr>]"
  by (simp add: run_simps sameIdDebts_def)

section \<open>The cap of 600 months and what the result shows of it\<close>









section \<open>The heap function computes the function on values\<close>

lemma workingAt_update_same: "a < length h \<Longrightarrow> workingAt (h[a := WorkingObj w]) a = w"
  by (simp add: workingAt_def)

lemma workingAt_update_other: "a \<noteq> c \<Longrightarrow> workingAt (h[c := x]) a = workingAt h a"
  by (simp add: workingAt_def)

lemma map_workingAt_update_other:
  "c \<notin> set refs \<Longrightarrow> map (workingAt (h[c := x])) refs = map (workingAt h) refs"
  by (induction refs) (auto simp: workingAt_update_other)

lemma map_workingAt_update:
  assumes "distinct refs" "t < length refs" "refs ! t < length h"
  shows "map (workingAt (h[refs ! t := WorkingObj w])) refs = (map (workingAt h) refs)[t := w]"
proof (rule nth_equalityI)
  show "length (map (workingAt (h[refs ! t := WorkingObj w])) refs)
      = length ((map (workingAt h) refs)[t := w])" by simp
next
  fix i assume "i < length (map (workingAt (h[refs ! t := WorkingObj w])) refs)"
  then have i: "i < length refs" by simp
  show "map (workingAt (h[refs ! t := WorkingObj w])) refs ! i = (map (workingAt h) refs)[t := w] ! i"
  proof (cases "i = t")
    case True
    with assms show ?thesis by (simp add: workingAt_update_same)
  next
    case False
    with assms(1,2) i have "refs ! i \<noteq> refs ! t" by (simp add: nth_eq_iff_index_eq)
    with i False show ?thesis by (simp add: workingAt_update_other)
  qed
qed

lemma length_minimumPayments_h: "length (fst (minimumPayments_h h refs st)) = length h"
  by (induction refs arbitrary: h st) (simp_all add: payMinimum_closed)

lemma frame_minimumPayments_h:
  "a \<notin> set refs \<Longrightarrow> fst (minimumPayments_h h refs st) ! a = h ! a"
  by (induction refs arbitrary: h st) (auto simp: payMinimum_closed)

lemma minimumPayments_h_values:
  assumes "distinct refs" and "\<forall>a\<in>set refs. a < length h"
  shows "map (workingAt (fst (minimumPayments_h h refs st))) refs
           = fst (minimumPayments (map (workingAt h) refs) st)
       \<and> snd (minimumPayments_h h refs st) = snd (minimumPayments (map (workingAt h) refs) st)"
  using assms
proof (induction refs arbitrary: h st)
  case Nil
  show ?case by simp
next
  case (Cons a rest)
  let ?d = "workingAt h a"
  let ?h1 = "h[a := WorkingObj (minDebt ?d)]"
  obtain st1 where pm: "payMinimum ?d st = (minDebt ?d, st1)"
    by (simp add: payMinimum_closed)
  from Cons.prems have a: "a \<notin> set rest" "a < length h" "distinct rest"
      "\<forall>c\<in>set rest. c < length ?h1"
    by simp_all
  have same: "map (workingAt ?h1) rest = map (workingAt h) rest"
    using a(1) by (rule map_workingAt_update_other)
  from Cons.IH[OF a(3,4), of st1] same
  have ih: "map (workingAt (fst (minimumPayments_h ?h1 rest st1))) rest
              = fst (minimumPayments (map (workingAt h) rest) st1)"
      "snd (minimumPayments_h ?h1 rest st1) = snd (minimumPayments (map (workingAt h) rest) st1)"
    by simp_all
  have "workingAt (fst (minimumPayments_h ?h1 rest st1)) a = workingAt ?h1 a"
    using a(1) by (simp add: workingAt_def frame_minimumPayments_h)
  then have hd: "workingAt (fst (minimumPayments_h ?h1 rest st1)) a = minDebt ?d"
    using a(2) by (simp add: workingAt_update_same)
  from pm ih hd show ?case
    by (simp add: split_beta)
qed

lemma insort_cmp_map:
  "insort_cmp cmp (f x) (map f ys) = map f (insort_cmp (\<lambda>x y. cmp (f x) (f y)) x ys)"
  by (induction ys) simp_all

lemma sort_cmp_map:
  "sort_cmp cmp (map f xs) = map f (sort_cmp (\<lambda>x y. cmp (f x) (f y)) xs)"
  by (induction xs) (simp_all add: sort_cmp_def insort_cmp_map)

lemma insort_cmp_cong:
  "(\<And>y. y \<in> set ys \<Longrightarrow> c1 x y = c2 x y) \<Longrightarrow> insort_cmp c1 x ys = insort_cmp c2 x ys"
  by (induction ys) simp_all

lemma sort_cmp_cong:
  assumes "\<And>x y. x \<in> set xs \<Longrightarrow> y \<in> set xs \<Longrightarrow> c1 x y = c2 x y"
  shows "sort_cmp c1 xs = sort_cmp c2 xs"
  using assms
proof (induction xs)
  case Nil
  show ?case by (simp add: sort_cmp_def)
next
  case (Cons x xs)
  have ih: "sort_cmp c1 xs = sort_cmp c2 xs" using Cons by simp
  have "insort_cmp c1 x (sort_cmp c2 xs) = insort_cmp c2 x (sort_cmp c2 xs)"
    by (rule insort_cmp_cong) (simp add: set_sort_cmp Cons.prems)
  with ih show ?case by (simp add: sort_cmp_Cons)
qed

lemma filter_refs:
  "filter P refs = map ((!) refs) (filter (\<lambda>i. P (refs ! i)) [0..<length refs])"
proof -
  have "filter P refs = filter P (map ((!) refs) [0..<length refs])" by (simp add: map_nth)
  also have "\<dots> = map ((!) refs) (filter (P \<circ> (!) refs) [0..<length refs])"
    by (rule filter_map)
  finally show ?thesis by (simp add: comp_def)
qed

lemma activeDebts_refs:
  "activeDebts (map (workingAt h) refs) =
     filter (\<lambda>i. \<not> isPaidOff_w (workingAt h (refs ! i))) [0..<length refs]"
  unfolding activeDebts_def by (rule filter_cong) simp_all

text \<open>The sorted active addresses are the addresses at the sorted active positions.\<close>

lemma sorted_active_refs:
  "sort_cmp (\<lambda>a b. comparator g (workingAt h a) (workingAt h b))
     (filter (\<lambda>a. \<not> isPaidOff_w (workingAt h a)) refs) =
   map ((!) refs)
     (sort_cmp (\<lambda>i j. comparator g (map (workingAt h) refs ! i) (map (workingAt h) refs ! j))
        (activeDebts (map (workingAt h) refs)))"
proof -
  let ?wds = "map (workingAt h) refs"
  note act = activeDebts_refs[of h refs]
  have "sort_cmp (\<lambda>a b. comparator g (workingAt h a) (workingAt h b))
     (filter (\<lambda>a. \<not> isPaidOff_w (workingAt h a)) refs) =
     map ((!) refs) (sort_cmp (\<lambda>i j. comparator g (workingAt h (refs ! i)) (workingAt h (refs ! j)))
        (activeDebts ?wds))"
    by (subst filter_refs) (simp add: sort_cmp_map act)
  also have "sort_cmp (\<lambda>i j. comparator g (workingAt h (refs ! i)) (workingAt h (refs ! j)))
        (activeDebts ?wds) =
      sort_cmp (\<lambda>i j. comparator g (?wds ! i) (?wds ! j)) (activeDebts ?wds)"
    by (rule sort_cmp_cong) (simp add: set_activeDebts)
  finally show ?thesis .
qed

lemma length_applyExtra_h: "length (fst (applyExtra_h g h refs st)) = length h"
  by (simp add: applyExtra_h_def Let_def split: list.splits)

lemma frame_applyExtra_h:
  "a \<notin> set refs \<Longrightarrow> fst (applyExtra_h g h refs st) ! a = h ! a"
proof -
  assume a: "a \<notin> set refs"
  have "t \<in> set refs" if "sort_cmp (\<lambda>a b. comparator g (workingAt h a) (workingAt h b))
       (filter (\<lambda>a. \<not> isPaidOff_w (workingAt h a)) refs) = t # rest" for t rest
  proof -
    have "t \<in> set (sort_cmp (\<lambda>a b. comparator g (workingAt h a) (workingAt h b))
       (filter (\<lambda>a. \<not> isPaidOff_w (workingAt h a)) refs))" by (simp add: that)
    then show ?thesis by (simp add: set_sort_cmp)
  qed
  with a have "t \<noteq> a" if "sort_cmp (\<lambda>a b. comparator g (workingAt h a) (workingAt h b))
       (filter (\<lambda>a. \<not> isPaidOff_w (workingAt h a)) refs) = t # rest" for t rest
    using that by blast
  then show ?thesis
    by (simp add: applyExtra_h_def Let_def split: list.splits)
qed

lemma applyExtra_h_values:
  assumes "distinct refs" and "\<forall>a\<in>set refs. a < length h"
  shows "map (workingAt (fst (applyExtra_h g h refs st))) refs
           = fst (applyExtra g (map (workingAt h) refs) st)
       \<and> snd (applyExtra_h g h refs st) = snd (applyExtra g (map (workingAt h) refs) st)"
proof -
  let ?wds = "map (workingAt h) refs"
  let ?sorted = "sort_cmp (\<lambda>i j. comparator g (?wds ! i) (?wds ! j)) (activeDebts ?wds)"
  let ?act_h = "filter (\<lambda>a. \<not> isPaidOff_w (workingAt h a)) refs"
  let ?sorted_h = "sort_cmp (\<lambda>a b. comparator g (workingAt h a) (workingAt h b)) ?act_h"
  have srt: "?sorted_h = map ((!) refs) ?sorted" by (rule sorted_active_refs)
  have "?act_h = map ((!) refs) (activeDebts ?wds)"
    by (subst filter_refs) (simp add: activeDebts_refs)
  then have empty: "?act_h = [] \<longleftrightarrow> activeDebts ?wds = []" by simp
  show ?thesis
  proof (cases "0 < remainingBudget st \<and> activeDebts ?wds \<noteq> []")
    case False
    then have "applyExtra g ?wds st = (?wds, st)"
      by (auto simp: applyExtra_def Let_def)
    moreover from False empty have "applyExtra_h g h refs st = (h, st)"
      by (auto simp: applyExtra_h_def Let_def)
    ultimately show ?thesis by simp
  next
    case True
    with empty have True_h: "0 < remainingBudget st" "?act_h \<noteq> []" by simp_all
    show ?thesis
    proof (cases ?sorted)
      case Nil
      with True have "applyExtra g ?wds st = (?wds, st)"
        by (simp add: applyExtra_def targetDebt_def Let_def)
      moreover from Nil srt have "?sorted_h = []" by simp
      with True_h have "applyExtra_h g h refs st = (h, st)"
        by (simp add: applyExtra_h_def Let_def)
      ultimately show ?thesis by simp
    next
      case (Cons t rest)
      then have "t \<in> set ?sorted" by simp
      then have "t \<in> set (activeDebts ?wds)" by (simp add: set_sort_cmp)
      then have t: "t < length refs" by (simp add: set_activeDebts)
      with assms(2) have r: "refs ! t < length h" by simp
      have at: "workingAt h (refs ! t) = ?wds ! t" using t by simp
      define e where "e = min (remainingBudget st) (remainingBalance_w (?wds ! t))"
      define st' where "st' = st\<lparr>monthlyPayments :=
            updateRecord (id_debt (?wds ! t)) (extraRecord e (?wds ! t)) (monthlyPayments st),
          totalPaid_v := totalPaid_v st + e\<rparr>"
      from Cons True have pure: "applyExtra g ?wds st = (?wds[t := extraTo e (?wds ! t)], st')"
        by (simp add: applyExtra_def targetDebt_def Let_def extraTo_def extraRecord_fun e_def st'_def
            del: nth_map)
      from Cons srt have "?sorted_h = refs ! t # map ((!) refs) rest" by simp
      with True_h have "applyExtra_h g h refs st =
          (h[refs ! t := WorkingObj (extraTo e (?wds ! t))], st')"
        by (simp add: applyExtra_h_def Let_def at extraTo_def extraRecord_fun e_def st'_def
            del: nth_map)
      moreover have "map (workingAt (h[refs ! t := WorkingObj (extraTo e (?wds ! t))])) refs
          = ?wds[t := extraTo e (?wds ! t)]"
        using assms(1) t r by (rule map_workingAt_update)
      ultimately show ?thesis using pure by simp
    qed
  qed
qed

lemma foldl_refs:
  "foldl (\<lambda>sum a. sum + remainingBalance_w (workingAt h a)) x refs =
   foldl (\<lambda>sum debt. sum + remainingBalance_w debt) x (map (workingAt h) refs)"
  by (induction refs arbitrary: x) simp_all

lemma monthStep_h_values:
  assumes "fresh n (heap_h s) (workingRefs s)"
  shows "valuesOf (monthStep_h b g s) = monthStep b g (valuesOf s)"
    and "workingRefs (monthStep_h b g s) = workingRefs s"
    and "length (heap_h (monthStep_h b g s)) = length (heap_h s)"
    and "take n (heap_h (monthStep_h b g s)) = take n (heap_h s)"
proof -
  let ?refs = "workingRefs s"
  let ?st0 = "\<lparr>remainingBudget = b, monthlyPayments = [],
            totalPaid_v = totalPaid_h s, totalInterestPaid_v = totalInterestPaid_h s\<rparr>"
  from assms have d: "distinct ?refs" and inside: "\<forall>a\<in>set ?refs. a < length (heap_h s)"
    and above: "\<forall>a\<in>set ?refs. n \<le> a"
    by (auto simp: fresh_def list_all_iff)
  obtain h1 st1 where mp: "minimumPayments_h (heap_h s) ?refs ?st0 = (h1, st1)"
    by (cases "minimumPayments_h (heap_h s) ?refs ?st0")
  obtain h2 st2 where ae: "applyExtra_h g h1 ?refs st1 = (h2, st2)"
    by (cases "applyExtra_h g h1 ?refs st1")
  have len1: "length h1 = length (heap_h s)"
    using length_minimumPayments_h[of "heap_h s" ?refs ?st0] mp by simp
  have len2: "length h2 = length h1"
    using length_applyExtra_h[of g h1 ?refs st1] ae by simp
  have v1: "map (workingAt h1) ?refs = fst (minimumPayments (map (workingAt (heap_h s)) ?refs) ?st0)"
      "st1 = snd (minimumPayments (map (workingAt (heap_h s)) ?refs) ?st0)"
    using minimumPayments_h_values[OF d inside, of ?st0] mp by simp_all
  from inside len1 have inside1: "\<forall>a\<in>set ?refs. a < length h1" by simp
  have v2: "map (workingAt h2) ?refs = fst (applyExtra g (map (workingAt h1) ?refs) st1)"
      "st2 = snd (applyExtra g (map (workingAt h1) ?refs) st1)"
    using applyExtra_h_values[OF d inside1, of g st1] ae by simp_all
  have ms: "monthStep_h b g s =
     \<lparr>heap_h = h2, workingRefs = ?refs,
      schedule_h = schedule_h s @
        [\<lparr>month = month_h s, payments = monthlyPayments st2,
          totalRemaining = foldl (\<lambda>sum a. sum + remainingBalance_w (workingAt h2 a)) 0 ?refs,
          totalPaid = totalPaid_v st2, totalInterestPaid = totalInterestPaid_v st2\<rparr>],
      month_h = month_h s + 1, totalPaid_h = totalPaid_v st2,
      totalInterestPaid_h = totalInterestPaid_v st2\<rparr>"
    by (simp add: monthStep_h_def mp ae)
  show "valuesOf (monthStep_h b g s) = monthStep b g (valuesOf s)"
    unfolding ms
    by (simp add: valuesOf_def monthStep_def foldl_refs v1 v2 split_beta Let_def)
  show "workingRefs (monthStep_h b g s) = workingRefs s" by (simp add: ms)
  show "length (heap_h (monthStep_h b g s)) = length (heap_h s)" by (simp add: ms len1 len2)
  have "h2 ! a = heap_h s ! a" if "a < n" for a
  proof -
    from that above have "a \<notin> set ?refs" by auto
    then have "h1 ! a = heap_h s ! a" "h2 ! a = h1 ! a"
      using frame_minimumPayments_h[of a ?refs "heap_h s" ?st0] mp
            frame_applyExtra_h[of a ?refs g h1 st1] ae
      by simp_all
    then show ?thesis by simp
  qed
  then show "take n (heap_h (monthStep_h b g s)) = take n (heap_h s)"
    by (simp add: ms list_eq_iff_nth_eq len1 len2)
qed

lemma continues_h_values: "continues_h s = continues (valuesOf s)"
  by (simp add: continues_h_def continues_def valuesOf_def list_ex_iff)

lemma while_loop_h_values:
  assumes "fresh n (heap_h s) (workingRefs s)"
  shows "valuesOf (while_loop_h b g s) = while_loop b g (valuesOf s) \<and>
         take n (heap_h (while_loop_h b g s)) = take n (heap_h s)"
  using assms
proof (induction b g s rule: while_loop_h.induct)
  case (1 b g s)
  show ?case
  proof (cases "continues_h s")
    case True
    note step = monthStep_h_values[OF "1.prems", of b g]
    from "1.prems" step(2,3) have "fresh n (heap_h (monthStep_h b g s)) (workingRefs (monthStep_h b g s))"
      by (simp add: fresh_def)
    with "1.IH" True have "valuesOf (while_loop_h b g (monthStep_h b g s))
          = while_loop b g (valuesOf (monthStep_h b g s)) \<and>
        take n (heap_h (while_loop_h b g (monthStep_h b g s))) = take n (heap_h (monthStep_h b g s))"
      by simp
    with True step(1,4) show ?thesis
      by (subst while_loop_h.simps, subst (2) while_loop_h.simps, subst while_loop.simps)
         (simp add: continues_h_values)
  next
    case False
    then show ?thesis
      by (subst while_loop_h.simps, subst (2) while_loop_h.simps, subst while_loop.simps)
         (simp add: continues_h_values)
  qed
qed

lemma cloneObj_debtOf: "cloneObj x = clone (debtOf x)"
  by (cases x) (simp_all add: clone_def)

lemma cloneDebts_values:
  "map (workingAt (fst (cloneDebts h debts))) (snd (cloneDebts h debts))
     = map clone (map (\<lambda>a. debtOf (h ! a)) debts)"
  by (rule nth_equalityI)
     (simp_all add: cloneDebts_def workingAt_def nth_append cloneObj_debtOf)

lemma cloneDebts_fresh: "fresh (length h) (fst (cloneDebts h debts)) (snd (cloneDebts h debts))"
  by (simp add: fresh_def cloneDebts_def list_all_iff)

lemma calculatePaymentPlan_h_values:
  "snd (calculatePaymentPlan_h h debts b g)
     = calculatePaymentPlan (map (\<lambda>a. debtOf (h ! a)) debts) b g"
  and calculatePaymentPlan_h_frame:
  "take (length h) (fst (calculatePaymentPlan_h h debts b g)) = h"
proof -
  let ?s0 = "\<lparr>heap_h = fst (cloneDebts h debts), workingRefs = snd (cloneDebts h debts),
     schedule_h = [], month_h = 1, totalPaid_h = 0, totalInterestPaid_h = 0\<rparr>"
  have "fresh (length h) (heap_h ?s0) (workingRefs ?s0)" by (simp add: cloneDebts_fresh)
  from while_loop_h_values[OF this, of b g]
  have v: "valuesOf (while_loop_h b g ?s0) = while_loop b g (valuesOf ?s0)"
    and f: "take (length h) (heap_h (while_loop_h b g ?s0)) = take (length h) (heap_h ?s0)"
    by simp_all
  have init: "valuesOf ?s0 = initial (map (\<lambda>a. debtOf (h ! a)) debts)"
    by (simp add: valuesOf_def initial_def cloneDebts_values)
  from v init have v': "valuesOf (while_loop_h b g ?s0)
      = simulate (map (\<lambda>a. debtOf (h ! a)) debts) b g"
    by (simp add: simulate_def)
  have "snd (calculatePaymentPlan_h h debts b g) =
      \<lparr>paymentSchedule = schedule (valuesOf (while_loop_h b g ?s0)),
       totalMonths = length (schedule (valuesOf (while_loop_h b g ?s0))),
       totalInterestPaid_s = totalInterestPaid_l (valuesOf (while_loop_h b g ?s0)),
       totalPaid_s = totalPaid_l (valuesOf (while_loop_h b g ?s0))\<rparr>"
    by (simp add: calculatePaymentPlan_h_def split_beta Let_def valuesOf_def)
  then show "snd (calculatePaymentPlan_h h debts b g)
     = calculatePaymentPlan (map (\<lambda>a. debtOf (h ! a)) debts) b g"
    by (simp only: v' calculatePaymentPlan_def Let_def)
  show "take (length h) (fst (calculatePaymentPlan_h h debts b g)) = h"
    using f by (simp add: calculatePaymentPlan_h_def split_beta Let_def cloneDebts_def)
qed

text \<open>
  Claim C9. The caller's debts are objects of a heap \<open>h\<close> and \<^verbatim>\<open>debts\<close> is the array of
  their addresses. A call returns the plan that the function on values computes from the
  fields of those objects, whatever else the heap holds; it leaves every object that
  existed before the call as it was, the caller's debts among them; and a second call
  with the same array, budget and strategy, made on the heap that the first call left,
  returns the same plan: the same schedule, month by month, and the same totals.
\<close>

theorem calls_independent:
  assumes "\<forall>a\<in>set debts. a < length h"
    and "calculatePaymentPlan_h h debts monthlyBudget strategy = (h1, plan1)"
    and "calculatePaymentPlan_h h1 debts monthlyBudget strategy = (h2, plan2)"
  shows "plan1 = calculatePaymentPlan (map (\<lambda>a. debtOf (h ! a)) debts) monthlyBudget strategy
       \<and> plan2 = plan1
       \<and> take (length h) h1 = h \<and> take (length h) h2 = h
       \<and> map (\<lambda>a. h2 ! a) debts = map (\<lambda>a. h ! a) debts"
proof -
  have p1: "plan1 = calculatePaymentPlan (map (\<lambda>a. debtOf (h ! a)) debts) monthlyBudget strategy"
    using calculatePaymentPlan_h_values[of h debts monthlyBudget strategy] assms(2) by simp
  have f1: "take (length h) h1 = h"
    using calculatePaymentPlan_h_frame[of h debts monthlyBudget strategy] assms(2) by simp
  have p2: "plan2 = calculatePaymentPlan (map (\<lambda>a. debtOf (h1 ! a)) debts) monthlyBudget strategy"
    using calculatePaymentPlan_h_values[of h1 debts monthlyBudget strategy] assms(3) by simp
  have f2: "take (length h1) h2 = h1"
    using calculatePaymentPlan_h_frame[of h1 debts monthlyBudget strategy] assms(3) by simp
  have same1: "h1 ! a = h ! a" if "a < length h" for a
    using that f1 by (metis nth_take)
  have "length (take (length h) h1) = length h" using f1 by simp
  then have le: "length h \<le> length h1" by simp
  have same2: "h2 ! a = h ! a" if "a < length h" for a
  proof -
    from that le have "a < length h1" by simp
    with f2 have "h2 ! a = h1 ! a" by (metis nth_take)
    with same1[OF that] show ?thesis by simp
  qed
  have "map (\<lambda>a. debtOf (h1 ! a)) debts = map (\<lambda>a. debtOf (h ! a)) debts"
    using assms(1) same1 by simp
  with p1 p2 have "plan2 = plan1" by simp
  moreover have "take (length h) h2 = h"
  proof -
    have "take (length h) h2 = take (length h) (take (length h1) h2)"
      using le by (simp add: min_def)
    with f2 f1 show ?thesis by simp
  qed
  moreover have "map (\<lambda>a. h2 ! a) debts = map (\<lambda>a. h ! a) debts"
    using assms(1) same2 by simp
  ultimately show ?thesis using p1 f1 by simp
qed

theorem calls_independent_witness:
  "0 < length [DebtObj (twoDebts ! 0), DebtObj (twoDebts ! 1)]
   \<and> 1 < length [DebtObj (twoDebts ! 0), DebtObj (twoDebts ! 1)]
   \<and> snd (calculatePaymentPlan_h [DebtObj (twoDebts ! 0), DebtObj (twoDebts ! 1)] [0, 1] 100 snowball)
       = calculatePaymentPlan twoDebts 100 snowball
   \<and> snd (calculatePaymentPlan_h
            (fst (calculatePaymentPlan_h [DebtObj (twoDebts ! 0), DebtObj (twoDebts ! 1)] [0, 1] 100 snowball))
            [0, 1] 100 snowball)
       = calculatePaymentPlan twoDebts 100 snowball
   \<and> take 2 (fst (calculatePaymentPlan_h [DebtObj (twoDebts ! 0), DebtObj (twoDebts ! 1)] [0, 1] 100 snowball))
       = [DebtObj (twoDebts ! 0), DebtObj (twoDebts ! 1)]"
proof -
  let ?h = "[DebtObj (twoDebts ! 0), DebtObj (twoDebts ! 1)]"
  let ?r1 = "calculatePaymentPlan_h ?h [0, 1] 100 snowball"
  let ?r2 = "calculatePaymentPlan_h (fst ?r1) [0, 1] 100 snowball"
  have h1: "\<forall>a\<in>set [0, 1]. a < length ?h" by simp
  have h2: "?r1 = (fst ?r1, snd ?r1)" by simp
  have h3: "?r2 = (fst ?r2, snd ?r2)" by simp
  have two: "[twoDebts ! 0, twoDebts ! Suc 0] = twoDebts" by (simp add: twoDebts_def)
  from calls_independent[OF h1 h2 h3] show ?thesis by (simp add: two numeral_2_eq_2)
qed

section \<open>The rounding of binary64\<close>






lemma roundoff_bounds: "0 < roundoff" "roundoff < 1"
  by (simp_all add: roundoff_def)





section \<open>The clamp of the minimum payment in double precision\<close>

text \<open>The definitions that a rounding on given numbers is computed with.\<close>

lemmas double_simps = double_def binade_def binade_pos.simps nearestEven_def Let_def

text \<open>
  Two well known values: the double nearest to 0.1, and the sum of the doubles nearest to
  0.1 and 0.2, which is 0.30000000000000004.
\<close>

lemma double_tenth: "double (1 / 10) = 3602879701896397 / 2 ^ 55"
  by (simp add: double_simps)

lemma double_tenth_plus_fifth:
  "double (double (1 / 10) + double (2 / 10)) = 1351079888211149 / 2 ^ 52"
  by (simp add: double_simps)

text \<open>The fields of the debt, and the operations of the callback on them, one by one.\<close>

lemma residue_balance: "double (1541069 / 100) = 8472116423525663 / 549755813888"
  by (simp add: double_simps)

lemma residue_rate: "double (1642 / 100) = 1155454779397243 / 70368744177664"
  by (simp add: double_simps)

lemma residue_minimum: "double (3092138 / 100) = 8499604214220063 / 274877906944"
  by (simp add: double_simps)

lemma residue_rate_100: "double ((1155454779397243 / 70368744177664) / 100) = 1478982117628471 / 9007199254740992"
  by (simp add: double_simps)

lemma residue_rate_12: "double ((1478982117628471 / 9007199254740992) / 12) = 7887904627351845 / 576460752303423488"
  by (simp add: double_simps)

lemma residue_interest: "double ((8472116423525663 / 549755813888) * (7887904627351845 / 576460752303423488)) = 231853586123819 / 1099511627776"
  by (simp add: double_simps)

lemma residue_sum: "double (8472116423525663 / 549755813888 + 231853586123819 / 1099511627776) = 2147010804146893 / 137438953472"
  by (simp add: double_simps)

lemma residue_principal: "double (2147010804146893 / 137438953472 - 231853586123819 / 1099511627776) = 4236058211762831 / 274877906944"
  by (simp add: double_simps)

lemma residue_left: "double (8472116423525663 / 549755813888 - 4236058211762831 / 274877906944) = 1 / 2 ^ 39"
  by (simp add: double_simps)


lemma residue_callback:
  "payMinimum64 residueDebt st =
    (residueDebt\<lparr>remainingBalance_w := 1 / 2 ^ 39, isPaidOff_w := False\<rparr>,
     st\<lparr>remainingBudget := double (remainingBudget st - 2147010804146893 / 137438953472),
        totalPaid_v := double (totalPaid_v st + 2147010804146893 / 137438953472),
        totalInterestPaid_v := double (totalInterestPaid_v st
           + double (2147010804146893 / 137438953472 - 4236058211762831 / 274877906944)),
        monthlyPayments := monthlyPayments st @
          [\<lparr>debtId = ''2'', amount = 2147010804146893 / 137438953472,
            remainingBalance = 1 / 2 ^ 39, isPaidOff = False\<rparr>]\<rparr>)"
proof -
  have rb: "remainingBalance_w residueDebt = 8472116423525663 / 549755813888"
    and rate: "interestRate residueDebt = 1155454779397243 / 70368744177664"
    and minimum: "minimumPayment residueDebt = 8499604214220063 / 274877906944"
    and unpaid: "\<not> isPaidOff_w residueDebt" and ident: "id_debt residueDebt = ''2''"
    using residue_balance residue_rate residue_minimum by (simp_all add: residueDebt_def)
  have mr: "double (double (interestRate residueDebt / 100) / 12)
      = 7887904627351845 / 576460752303423488"
    unfolding rate residue_rate_100 by (rule residue_rate_12)
  have interest: "double (remainingBalance_w residueDebt * (7887904627351845 / 576460752303423488))
      = 231853586123819 / 1099511627776"
    unfolding rb by (rule residue_interest)
  have sum: "double (remainingBalance_w residueDebt + 231853586123819 / 1099511627776)
      = 2147010804146893 / 137438953472"
    unfolding rb by (rule residue_sum)
  have payment: "min (minimumPayment residueDebt) (2147010804146893 / 137438953472)
      = 2147010804146893 / 137438953472"
    unfolding minimum by simp
  have principal: "max 0 (double (2147010804146893 / 137438953472 - 231853586123819 / 1099511627776))
      = 4236058211762831 / 274877906944"
    unfolding residue_principal by simp
  have left: "max 0 (double (remainingBalance_w residueDebt - 4236058211762831 / 274877906944))
      = 1 / 2 ^ 39"
    unfolding rb residue_left by simp
  show ?thesis
    unfolding payMinimum64_def Let_def mr interest sum payment principal left
    using unpaid ident by simp
qed

text \<open>
  Claim C8. The claim is that a debt whose minimum payment exceeds its remaining balance
  plus the interest of the month is paid off by that payment, with a balance of exactly
  0 after it. The callback aims at that: it caps the payment at the balance plus the
  interest and tests the balance against 0. But it takes the principal to be the payment
  minus the interest, and in double precision that difference need not give the balance
  back. For the debt entered as balance 15410.69, rate 16.42 and minimum payment
  30921.38, the minimum payment is above the balance plus the interest
  (15621.559608166666), the principal comes out one unit in the last place below the
  balance, and the callback leaves a balance of 2 to the power -39, about 1.8e-12, with
  the debt not paid off.
\<close>

theorem minimum_payment_leaves_residue:
  "double (remainingBalance_w residueDebt
      + double (remainingBalance_w residueDebt
          * double (double (interestRate residueDebt / 100) / 12)))
     < minimumPayment residueDebt
   \<and> remainingBalance_w (fst (payMinimum64 residueDebt st)) = 1 / 2 ^ 39
   \<and> \<not> isPaidOff_w (fst (payMinimum64 residueDebt st))
   \<and> last (monthlyPayments (snd (payMinimum64 residueDebt st))) =
       \<lparr>debtId = ''2'', amount = 2147010804146893 / 137438953472,
        remainingBalance = 1 / 2 ^ 39, isPaidOff = False\<rparr>"
proof -
  have rb: "remainingBalance_w residueDebt = 8472116423525663 / 549755813888"
    and rate: "interestRate residueDebt = 1155454779397243 / 70368744177664"
    and minimum: "minimumPayment residueDebt = 8499604214220063 / 274877906944"
    using residue_balance residue_rate residue_minimum by (simp_all add: residueDebt_def)
  have "double (remainingBalance_w residueDebt
      + double (remainingBalance_w residueDebt
          * double (double (interestRate residueDebt / 100) / 12)))
      = 2147010804146893 / 137438953472"
    unfolding rate residue_rate_100 residue_rate_12 rb residue_interest by (rule residue_sum)
  then show ?thesis
    by (simp add: residue_callback minimum)
qed

section \<open>Sums that are rounded at every step\<close>

lemma roundoff_powers:
  "1 \<le> (1 + roundoff) ^ k" "0 \<le> (1 - roundoff) ^ k" "(1 - roundoff) ^ k \<le> 1"
  using roundoff_bounds by (simp_all add: one_le_power power_le_one)



lemma tracks_Suc:
  assumes "tracks k E t"
  shows "tracks (Suc k) E t"
proof -
  from assms have E: "0 \<le> E" and lo: "E * (1 - roundoff) ^ k \<le> t" and hi: "t \<le> E * (1 + roundoff) ^ k"
    by (simp_all add: tracks_def)
  have "E * (1 - roundoff) ^ Suc k = (E * (1 - roundoff) ^ k) * (1 - roundoff)" by simp
  also have "\<dots> \<le> (E * (1 - roundoff) ^ k) * 1"
    using E roundoff_powers(2)[of k] roundoff_bounds by (intro mult_left_mono) simp_all
  finally have 1: "E * (1 - roundoff) ^ Suc k \<le> t" using lo by simp
  have "(E * (1 + roundoff) ^ k) * 1 \<le> (E * (1 + roundoff) ^ k) * (1 + roundoff)"
    using E roundoff_powers(1)[of k] roundoff_bounds by (intro mult_left_mono) simp_all
  then have 2: "t \<le> E * (1 + roundoff) ^ Suc k" using hi by (simp add: mult_ac)
  from E 1 2 show ?thesis by (simp add: tracks_def)
qed

lemma tracks_mono: "tracks k E t \<Longrightarrow> tracks (k + j) E t"
  by (induction j) (simp_all add: tracks_Suc)



section \<open>The minimum payments in double precision\<close>







section \<open>The extra payment in double precision\<close>





section \<open>One month in double precision\<close>









section \<open>Invariants of the loop in double precision\<close>






section \<open>The monthly budget in double precision\<close>


section \<open>The total paid in double precision\<close>



section \<open>Runs in double precision on given debts\<close>




































































section \<open>The first months of a run in double precision\<close>











section \<open>The monthly budget and the rounding\<close>






section \<open>Conservation of the total paid and the rounding\<close>




end
